theory Spec2Isabelle
  imports Main "HOL-Library.Word" "HOL-Library.Sublist"
begin

section \<open>The sort benchmark harness (src/cpp/src/main.cpp)\<close>

text \<open>
  The program is one C++ translation unit.  Its functions are embedded below in the
  order of the source.  Conventions of the embedding:
  \<^item> a \<open>std::string\<close> is a \<open>string\<close> (a list of 8-bit \<open>char\<close>s), a file's content too;
  \<^item> an \<open>int32_t\<close> is a \<open>32 word\<close>, compared through \<open>sint\<close>; an \<open>int\<close> that never
    overflows in the program (\<open>warmup\<close>, \<open>reps\<close>, results of \<open>std::stoi\<close>) is an \<open>int\<close>
    whose range \<open>std::stoi\<close> enforces;
  \<^item> a C++ exception is a value of type \<open>exn\<close>; \<open>std::exit(2)\<close> is a result of its own;
  \<^item> the file system, \<open>std::cout\<close>, \<open>std::cerr\<close> and the two vectors of \<open>main\<close> are
    fields of the record \<open>state\<close>, passed explicitly;
  \<^item> \<open>std::sort\<close> is the parameter \<open>srt\<close> of the loops and of \<open>main\<close> (the sort is an
    external capability; \<open>std_sort\<close> is what the source links against);
  \<^item> the clocks are the parameter \<open>env\<close>: what \<open>now_iso_local()\<close> returns in repetition
    \<open>rep\<close>, and the \<open>double\<close> that the two \<open>steady_clock\<close> readings give there.
  Platform: a little-endian host with a 64-bit \<open>size_t\<close> (so \<open>n * sizeof(int32_t)\<close> does
  not wrap), POSIX path syntax (the only separator is \<open>/\<close>, there is no root name), and
  the exception messages of libstdc++ (\<open>what()\<close> of a failed \<open>std::stoi\<close> is \<open>stoi\<close>).
  The file system changes only through the writes of the program itself (one writer).
  Memory: the one allocation whose size comes from the input, \<open>std::vector<int32_t>
  values(n)\<close>, throws \<open>std::bad_alloc\<close> when \<open>n\<close> exceeds the field \<open>alloc_limit\<close> of the
  state, the largest element count a vector can be given on the host.  The copies of
  \<open>values\<close> into \<open>tmp\<close> have the size of \<open>values\<close>, within that limit, and the small
  allocations of strings and streams are taken to succeed.
  Outside the model: an exception of \<open>fs::exists\<close>, and write errors after a successful
  open, which the source does not test.
\<close>

subsection \<open>Exceptions\<close>

datatype exn =
    RuntimeError string
  | InvalidArgument string
  | OutOfRange string
  | FilesystemError string
  | BadAlloc

fun what :: "exn \<Rightarrow> string" where
  "what (RuntimeError m) = m"
| "what (InvalidArgument m) = m"
| "what (OutOfRange m) = m"
| "what (FilesystemError m) = m"
| "what BadAlloc = ''std::bad_alloc''"

subsection \<open>The record \<open>Args\<close> and the usage text\<close>

record Args =
  dataset :: string
  algo :: string
  warmup :: int
  reps :: int
  out :: string
  validate :: bool

definition default_args :: Args where
  "default_args =
     \<lparr>dataset = '''', algo = ''builtin'', warmup = 5, reps = 30,
      out = ''results/raw.csv'', validate = True\<rparr>"

definition usage_text :: string where
  "usage_text =
     ''Usage:\<newline>'' @
     ''  bench_cpp --dataset <path> [--algo builtin] [--warmup N] [--reps N] [--out <csv>] [--no-validate]\<newline>'' @
     ''\<newline>'' @
     ''Example:\<newline>'' @
     ''  bench_cpp --dataset datasets/ints/random_n100000_seed1.bin --warmup 5 --reps 30 --out results/raw.csv\<newline>''"

subsection \<open>\<open>infer_distribution\<close>\<close>

text \<open>\<open>fs::path(p).filename()\<close>: the characters after the last separator.\<close>

definition filename :: "string \<Rightarrow> string" where
  "filename p = rev (takeWhile (\<lambda>c. c \<noteq> CHR ''/'') (rev p))"

text \<open>\<open>std::string::find\<close>: the lowest position at which the pattern starts, \<open>None\<close> for
  \<open>npos\<close>.\<close>

fun find_str :: "string \<Rightarrow> string \<Rightarrow> nat option" where
  "find_str [] pat = (if pat = [] then Some 0 else None)"
| "find_str (c # cs) pat =
     (if prefix pat (c # cs) then Some 0 else map_option Suc (find_str cs pat))"

definition infer_distribution :: "string \<Rightarrow> string" where
  "infer_distribution dataset_path =
     (let base = filename dataset_path in
      case find_str base ''_n'' of
        None \<Rightarrow> ''unknown''
      | Some pos \<Rightarrow> take pos base)"

subsection \<open>\<open>is_sorted_non_decreasing\<close>\<close>

type_synonym int32 = "32 word"

function is_sorted_from :: "int32 list \<Rightarrow> nat \<Rightarrow> bool" where
  "is_sorted_from a i =
     (if i + 1 < length a
      then (if sint (a ! i) > sint (a ! (i + 1)) then False else is_sorted_from a (i + 1))
      else True)"
  by pat_completeness auto
termination
  by (relation "measure (\<lambda>(a, i). length a - i)") auto

declare is_sorted_from.simps [simp del]

definition is_sorted_non_decreasing :: "int32 list \<Rightarrow> bool" where
  "is_sorted_non_decreasing a = is_sorted_from a 0"

text \<open>\<open>std::sort\<close> on a vector of \<open>int32_t\<close>: ascending in the signed order.\<close>

definition std_sort :: "int32 list \<Rightarrow> int32 list" where
  "std_sort a = sort_key sint a"

subsection \<open>The program state\<close>

text \<open>
  \<open>files\<close> maps the path of each existing file to its content.  \<open>unwritable\<close> holds the
  paths that \<open>std::ofstream\<close> cannot open for appending, and \<open>mkdir_error\<close> gives, for a log
  path whose parent directories \<open>fs::create_directories\<close> cannot create, the message of the
  \<open>filesystem_error\<close> it throws.  \<open>alloc_limit\<close> is the largest number of elements that
  a \<open>std::vector<int32_t>\<close> can be allocated with.  \<open>cout\<close> and \<open>cerr\<close> are the texts written
  so far.
  \<open>values_vec\<close> (the vector \<open>values\<close>) and \<open>tmp\<close> are the two vectors of \<open>main\<close>, and
  \<open>sort_calls\<close> records the vector that every call of the sort received.
\<close>

record state =
  files :: "string \<rightharpoonup> string"
  unwritable :: "string set"
  mkdir_error :: "string \<rightharpoonup> string"
  alloc_limit :: nat
  cout :: string
  cerr :: string
  values_vec :: "int32 list"
  tmp :: "int32 list"
  sort_calls :: "int32 list list"

subsection \<open>\<open>read_bin_int32_le\<close>\<close>

text \<open>Four bytes in memory read as a 32-bit integer on a little-endian host.\<close>

definition le32 :: "string \<Rightarrow> int32" where
  "le32 bs =
     word_of_nat (of_char (bs ! 0) + 256 * of_char (bs ! 1)
                  + 65536 * of_char (bs ! 2) + 16777216 * of_char (bs ! 3))"

fun decode_int32s :: "nat \<Rightarrow> string \<Rightarrow> int32 list" where
  "decode_int32s 0 bs = []"
| "decode_int32s (Suc k) bs = le32 (take 4 bs) # decode_int32s k (drop 4 bs)"

definition read_bin_int32_le :: "state \<Rightarrow> string \<Rightarrow> exn + int32 list" where
  "read_bin_int32_le s path =
     (case files s path of
        None \<Rightarrow> Inl (RuntimeError (''Failed to open: '' @ path))
      | Some bytes \<Rightarrow>
          if length bytes < 4
          then Inl (RuntimeError (''Failed to read header from: '' @ path))
          else
            let n = unat (le32 (take 4 bytes));
                rest = drop 4 bytes
            in if alloc_limit s < n
               then Inl BadAlloc
               else if length rest < n * 4
               then Inl (RuntimeError (''Failed to read payload from: '' @ path))
               else if drop (n * 4) rest \<noteq> []
               then Inl (RuntimeError (''File has extra trailing bytes: '' @ path))
               else Inr (decode_int32s n rest))"

subsection \<open>Rendering numbers\<close>

definition digit_char :: "nat \<Rightarrow> char" where
  "digit_char d = ''0123456789'' ! d"

function show_nat :: "nat \<Rightarrow> string" where
  "show_nat k = (if k < 10 then [digit_char k] else show_nat (k div 10) @ [digit_char (k mod 10)])"
  by pat_completeness auto
termination
  by (relation "measure (\<lambda>k. k)") auto

declare show_nat.simps [simp del]

text \<open>\<open>std::to_string(int)\<close>.\<close>

definition to_string :: "int \<Rightarrow> string" where
  "to_string i = (if i < 0 then ''-'' @ show_nat (nat (- i)) else show_nat (nat i))"

text \<open>
  A finite \<open>double\<close>: sign, significand and binary exponent, of value
  \<open>(-1)^neg * mant * 2^expo\<close>.  The elapsed time of a repetition is the difference of two
  clock readings converted to milliseconds, which is never an infinity or a NaN.
\<close>

record fdouble =
  neg :: bool
  mant :: nat
  expo :: int

text \<open>\<open>num / den\<close> rounded to the nearest integer, a tie to the even one.\<close>

definition round_half_even :: "nat \<Rightarrow> nat \<Rightarrow> nat" where
  "round_half_even num den =
     (let q = num div den; r = num mod den
      in if den < 2 * r \<or> (2 * r = den \<and> odd q) then q + 1 else q)"

text \<open>The lambda of \<open>main\<close>: \<open>oss << std::fixed << std::setprecision(3) << v\<close>.\<close>

definition fixed3 :: "fdouble \<Rightarrow> string" where
  "fixed3 v =
     (let k = (if 0 \<le> expo v then 1000 * mant v * 2 ^ nat (expo v)
               else round_half_even (1000 * mant v) (2 ^ nat (- expo v)))
      in (if neg v then ''-'' else []) @ show_nat (k div 1000) @ ''.'' @
         [digit_char (k div 100 mod 10), digit_char (k div 10 mod 10), digit_char (k mod 10)])"

subsection \<open>\<open>append_row\<close>\<close>

definition ensure_parent_dir :: "string \<Rightarrow> state \<Rightarrow> exn + state" where
  "ensure_parent_dir out_path s =
     (if CHR ''/'' \<in> set out_path
      then (case mkdir_error s out_path of
              Some m \<Rightarrow> Inl (FilesystemError m)
            | None \<Rightarrow> Inr s)
      else Inr s)"

definition file_exists :: "string \<Rightarrow> state \<Rightarrow> bool" where
  "file_exists path s = (files s path \<noteq> None)"

definition header_line :: string where
  "header_line =
     ''timestamp_iso,task,language,language_version,algo,dataset_file,distribution,n,warmup_runs,rep_idx,time_ms,ok\<newline>''"

text \<open>The loop that writes \<open>row[0]\<close>, then a comma and \<open>row[i]\<close> for every later \<open>i\<close>.\<close>

fun comma_join :: "string list \<Rightarrow> string" where
  "comma_join [] = []"
| "comma_join [x] = x"
| "comma_join (x # y # zs) = x @ '','' @ comma_join (y # zs)"

text \<open>Writing to a stream opened with \<open>std::ios::app\<close>; opening creates an absent file.\<close>

definition write_file :: "string \<Rightarrow> string \<Rightarrow> state \<Rightarrow> state" where
  "write_file path txt s =
     s\<lparr>files := (files s)(path \<mapsto> (case files s path of None \<Rightarrow> [] | Some c \<Rightarrow> c) @ txt)\<rparr>"

definition append_row :: "string \<Rightarrow> string list \<Rightarrow> state \<Rightarrow> exn + state" where
  "append_row csv_path row s =
     (case ensure_parent_dir csv_path s of
        Inl x \<Rightarrow> Inl x
      | Inr s1 \<Rightarrow>
          let new_file = \<not> file_exists csv_path s1
          in if csv_path \<in> unwritable s1
             then Inl (RuntimeError (''Failed to open output CSV: '' @ csv_path))
             else
               let s2 = write_file csv_path [] s1;
                   s3 = (if new_file then write_file csv_path header_line s2 else s2)
               in Inr (write_file csv_path (comma_join row @ ''\<newline>'') s3))"

subsection \<open>\<open>parse_args\<close>\<close>

definition isspace :: "char \<Rightarrow> bool" where
  "isspace c = (c = CHR '' '' \<or> (9 \<le> (of_char c :: nat) \<and> (of_char c :: nat) \<le> 13))"

definition isdigit :: "char \<Rightarrow> bool" where
  "isdigit c = (48 \<le> (of_char c :: nat) \<and> (of_char c :: nat) \<le> 57)"

fun decimal :: "nat \<Rightarrow> string \<Rightarrow> nat" where
  "decimal acc [] = acc"
| "decimal acc (c # cs) = decimal (10 * acc + (of_char c - 48)) cs"

text \<open>
  \<open>std::stoi\<close> (base 10): leading white space, an optional sign, then digits up to the
  first other character; \<open>invalid_argument\<close> without a digit, \<open>out_of_range\<close> outside \<open>int\<close>.
\<close>

definition stoi :: "string \<Rightarrow> exn + int" where
  "stoi str =
     (let s1 = dropWhile isspace str;
          minus = (s1 \<noteq> [] \<and> hd s1 = CHR ''-'');
          s2 = (if s1 \<noteq> [] \<and> (hd s1 = CHR ''-'' \<or> hd s1 = CHR ''+'') then tl s1 else s1);
          ds = takeWhile isdigit s2
      in if ds = [] then Inl (InvalidArgument ''stoi'')
         else
           let v = (if minus then - int (decimal 0 ds) else int (decimal 0 ds))
           in if v < - 2147483648 \<or> 2147483647 < v then Inl (OutOfRange ''stoi'')
              else Inr v)"

text \<open>
  What \<open>parse_args\<close> does: it returns, or it writes a text to \<open>std::cerr\<close> and ends the
  process with status 2 (\<open>usage_and_exit\<close>, \<open>std::exit(2)\<close>), or \<open>std::stoi\<close> throws.
\<close>

datatype parsed = Parsed Args | Exit2 string | Threw exn

text \<open>The loop over \<open>argv[1..argc-1]\<close>; \<open>need_value\<close> is the match on the rest.\<close>

fun parse_loop :: "string list \<Rightarrow> Args \<Rightarrow> parsed" where
  "parse_loop [] a = Parsed a"
| "parse_loop (arg # rest) a =
     (if arg = ''--dataset'' then
        (case rest of [] \<Rightarrow> Exit2 usage_text
         | v # rest' \<Rightarrow> parse_loop rest' (a\<lparr>dataset := v\<rparr>))
      else if arg = ''--algo'' then
        (case rest of [] \<Rightarrow> Exit2 usage_text
         | v # rest' \<Rightarrow> parse_loop rest' (a\<lparr>algo := v\<rparr>))
      else if arg = ''--warmup'' then
        (case rest of [] \<Rightarrow> Exit2 usage_text
         | v # rest' \<Rightarrow>
             (case stoi v of Inl x \<Rightarrow> Threw x
              | Inr k \<Rightarrow> parse_loop rest' (a\<lparr>warmup := k\<rparr>)))
      else if arg = ''--reps'' then
        (case rest of [] \<Rightarrow> Exit2 usage_text
         | v # rest' \<Rightarrow>
             (case stoi v of Inl x \<Rightarrow> Threw x
              | Inr k \<Rightarrow> parse_loop rest' (a\<lparr>reps := k\<rparr>)))
      else if arg = ''--out'' then
        (case rest of [] \<Rightarrow> Exit2 usage_text
         | v # rest' \<Rightarrow> parse_loop rest' (a\<lparr>out := v\<rparr>))
      else if arg = ''--no-validate'' then parse_loop rest (a\<lparr>validate := False\<rparr>)
      else Exit2 (''Unknown arg: '' @ arg @ ''\<newline>'' @ usage_text))"

definition parse_args :: "string list \<Rightarrow> parsed" where
  "parse_args argv =
     (case parse_loop argv default_args of
        Parsed a \<Rightarrow>
          if dataset a = [] then Exit2 (''--dataset is required\<newline>'' @ usage_text)
          else if warmup a < 0 \<or> reps a \<le> 0
          then Exit2 ''warmup must be >= 0 and reps must be > 0\<newline>''
          else if algo a \<noteq> ''builtin''
          then Exit2 ''only --algo builtin is supported right now\<newline>''
          else Parsed a
      | Exit2 m \<Rightarrow> Exit2 m
      | Threw x \<Rightarrow> Threw x)"

subsection \<open>\<open>main\<close>\<close>

record env =
  now_iso_local :: "nat \<Rightarrow> string"
  elapsed_ms :: "nat \<Rightarrow> fdouble"

text \<open>\<open>std::sort(tmp.begin(), tmp.end())\<close>, in place on \<open>tmp\<close>.\<close>

definition sort_tmp :: "(int32 list \<Rightarrow> int32 list) \<Rightarrow> state \<Rightarrow> state" where
  "sort_tmp srt s = s\<lparr>tmp := srt (tmp s), sort_calls := sort_calls s @ [tmp s]\<rparr>"

text \<open>The body of the warmup loop: \<open>auto tmp = values;\<close> then the sort.\<close>

definition warmup_iter :: "(int32 list \<Rightarrow> int32 list) \<Rightarrow> state \<Rightarrow> state" where
  "warmup_iter srt s = sort_tmp srt (s\<lparr>tmp := values_vec s\<rparr>)"

function warmup_loop :: "(int32 list \<Rightarrow> int32 list) \<Rightarrow> Args \<Rightarrow> nat \<Rightarrow> state \<Rightarrow> state" where
  "warmup_loop srt a i s =
     (if int i < warmup a then warmup_loop srt a (i + 1) (warmup_iter srt s) else s)"
  by pat_completeness auto
termination
  by (relation "measure (\<lambda>(srt, a, i, s). nat (warmup a) - i)") auto

declare warmup_loop.simps [simp del]

definition make_row :: "env \<Rightarrow> Args \<Rightarrow> int \<Rightarrow> string \<Rightarrow> nat \<Rightarrow> bool \<Rightarrow> string list" where
  "make_row e a n dist rep ok =
     [now_iso_local e rep, ''sort'', ''cpp'', ''c++20'', algo a, dataset a, dist,
      to_string n, to_string (warmup a), to_string (int rep),
      fixed3 (elapsed_ms e rep), if ok then ''true'' else ''false'']"

text \<open>
  The body of the measured loop.  The result carries the exception that left the body,
  if one did; what was written before it stays written.
\<close>

definition measured_iter ::
  "(int32 list \<Rightarrow> int32 list) \<Rightarrow> env \<Rightarrow> Args \<Rightarrow> int \<Rightarrow> string \<Rightarrow> nat \<Rightarrow> state \<Rightarrow> state \<times> exn option" where
  "measured_iter srt e a n dist rep s =
     (let s1 = sort_tmp srt (s\<lparr>tmp := values_vec s\<rparr>);
          ok = (if validate a then is_sorted_non_decreasing (tmp s1) else True);
          row = make_row e a n dist rep ok;
          s2 = s1\<lparr>cout := cout s1 @ comma_join row @ ''\<newline>''\<rparr>
      in case append_row (out a) row s2 of
           Inl x \<Rightarrow> (s2, Some x)
         | Inr s3 \<Rightarrow> (s3, None))"

function measured_loop ::
  "(int32 list \<Rightarrow> int32 list) \<Rightarrow> env \<Rightarrow> Args \<Rightarrow> int \<Rightarrow> string \<Rightarrow> nat \<Rightarrow> state \<Rightarrow> state \<times> exn option" where
  "measured_loop srt e a n dist rep s =
     (if int rep < reps a
      then (case measured_iter srt e a n dist rep s of
              (s', Some x) \<Rightarrow> (s', Some x)
            | (s', None) \<Rightarrow> measured_loop srt e a n dist (rep + 1) s')
      else (s, None))"
  by pat_completeness auto
termination
  by (relation "measure (\<lambda>(srt, e, a, n, dist, rep, s). nat (reps a) - rep)") auto

declare measured_loop.simps [simp del]

text \<open>The handler of \<open>main\<close>: the message on \<open>std::cerr\<close>, exit status 1.\<close>

definition catch_exn :: "exn \<Rightarrow> state \<Rightarrow> state \<times> int" where
  "catch_exn x s = (s\<lparr>cerr := cerr s @ ''Error: '' @ what x @ ''\<newline>''\<rparr>, 1)"

text \<open>\<open>main\<close> on \<open>argv[1..argc-1]\<close>: the final state and the exit status.\<close>

definition main ::
  "(int32 list \<Rightarrow> int32 list) \<Rightarrow> env \<Rightarrow> string list \<Rightarrow> state \<Rightarrow> state \<times> int" where
  "main srt e argv s =
     (case parse_args argv of
        Exit2 m \<Rightarrow> (s\<lparr>cerr := cerr s @ m\<rparr>, 2)
      | Threw x \<Rightarrow> catch_exn x s
      | Parsed a \<Rightarrow>
          (case read_bin_int32_le s (dataset a) of
             Inl x \<Rightarrow> catch_exn x s
           | Inr vs \<Rightarrow>
               let s1 = s\<lparr>values_vec := vs\<rparr>;
                   n = sint (word_of_nat (length vs) :: 32 word);
                   dist = infer_distribution (dataset a);
                   s2 = warmup_loop srt a 0 s1
               in (case measured_loop srt e a n dist 0 s2 of
                     (s3, Some x) \<Rightarrow> catch_exn x s3
                   | (s3, None) \<Rightarrow> (s3, 0))))"

subsection \<open>Successive calls of \<open>append_row\<close>\<close>


subsection \<open>Notions used in the statements\<close>

text \<open>The log at \<open>path\<close> can be appended to: every call of \<open>append_row\<close> on it returns.\<close>

definition can_append :: "string \<Rightarrow> state \<Rightarrow> bool" where
  "can_append path s =
     (path \<notin> unwritable s \<and> (CHR ''/'' \<in> set path \<longrightarrow> mkdir_error s path = None))"

text \<open>
  The line that the measured repetition \<open>rep\<close> writes when the vector \<open>values\<close> holds \<open>vs\<close>:
  its row with the outcome computed as in the loop body, joined, and a newline.
\<close>

definition row_line ::
  "(int32 list \<Rightarrow> int32 list) \<Rightarrow> env \<Rightarrow> Args \<Rightarrow> int \<Rightarrow> string \<Rightarrow> int32 list \<Rightarrow> nat \<Rightarrow> string" where
  "row_line srt e a n dist vs rep =
     comma_join (make_row e a n dist rep
                   (if validate a then is_sorted_non_decreasing (srt vs) else True))
     @ ''\<newline>''"

text \<open>
  \<open>ds\<close> is the decimal numeral of \<open>k\<close>: digits only, at least one, no leading zero
  (the numeral of 0 is \<open>0\<close>), and read from left to right they give \<open>k\<close>.
\<close>

definition decimal_numeral :: "string \<Rightarrow> nat \<Rightarrow> bool" where
  "decimal_numeral ds k =
     (ds \<noteq> [] \<and> list_all isdigit ds \<and> (hd ds = CHR ''0'' \<longrightarrow> ds = ''0'')
      \<and> decimal 0 ds = k)"

text \<open>
  \<open>k\<close> thousandths is the magnitude of the double \<open>v\<close> rounded to the nearest thousandth, a
  tie going to the even \<open>k\<close>: stated on the exact value \<open>mant * 2^expo\<close>, without reference
  to how \<open>fixed3\<close> computes.
\<close>

definition nearest_thousandth :: "fdouble \<Rightarrow> nat \<Rightarrow> bool" where
  "nearest_thousandth v k =
     (if 0 \<le> expo v then k = 1000 * mant v * 2 ^ nat (expo v)
      else 2 * \<bar>int (1000 * mant v) - int k * 2 ^ nat (- expo v)\<bar> \<le> 2 ^ nat (- expo v)
           \<and> (2 * \<bar>int (1000 * mant v) - int k * 2 ^ nat (- expo v)\<bar> = 2 ^ nat (- expo v)
                \<longrightarrow> even k))"

subsection \<open>Example inputs\<close>

text \<open>
  A process starts with nothing written and its vectors empty, here on a host that can
  allocate a vector of a million integers and no larger one.
\<close>

definition initial_state :: "(string \<rightharpoonup> string) \<Rightarrow> string set \<Rightarrow> state" where
  "initial_state fs ro =
     \<lparr>files = fs, unwritable = ro, mkdir_error = Map.empty, alloc_limit = 1000000,
      cout = [], cerr = [], values_vec = [], tmp = [], sort_calls = []\<rparr>"

text \<open>A file that declares 4294967295 integers and holds none.\<close>

definition dataset_huge :: string where
  "dataset_huge = [CHR 0xFF, CHR 0xFF, CHR 0xFF, CHR 0xFF]"

text \<open>A dataset file of two integers, 5 and -1.\<close>

definition dataset_two :: string where
  "dataset_two =
     [CHR 0x02, CHR 0x00, CHR 0x00, CHR 0x00,
      CHR 0x05, CHR 0x00, CHR 0x00, CHR 0x00,
      CHR 0xFF, CHR 0xFF, CHR 0xFF, CHR 0xFF]"

text \<open>Clocks that read the same at every repetition: 3/16 of a millisecond.\<close>

definition example_env :: env where
  "example_env =
     \<lparr>now_iso_local = (\<lambda>rep. ''2024-05-01T12:00:00''),
      elapsed_ms = (\<lambda>rep. \<lparr>neg = False, mant = 3, expo = - 4\<rparr>)\<rparr>"

text \<open>
  A run of two measured repetitions after one warmup on the dataset above, logging to
  \<open>o.csv\<close>, which does not exist yet.
\<close>

definition example_argv :: "string list" where
  "example_argv =
     [''--dataset'', ''d.bin'', ''--warmup'', ''1'', ''--reps'', ''2'', ''--out'', ''o.csv'']"

definition example_args :: Args where
  "example_args = default_args\<lparr>dataset := ''d.bin'', warmup := 1, reps := 2, out := ''o.csv''\<rparr>"

definition example_state :: state where
  "example_state = initial_state [''d.bin'' \<mapsto> dataset_two] {}"

text \<open>The same with a log that cannot be opened.\<close>

definition example_state_ro :: state where
  "example_state_ro = initial_state [''d.bin'' \<mapsto> dataset_two] {''o.csv''}"

section \<open>Properties\<close>

subsection \<open>The distribution label\<close>

lemma find_str_Some_decomp:
  "find_str s pat = Some k \<Longrightarrow> \<exists>suf. s = take k s @ pat @ suf"
proof (induction s arbitrary: k)
  case Nil
  then show ?case by (simp split: if_splits)
next
  case (Cons c cs)
  show ?case
  proof (cases "prefix pat (c # cs)")
    case True
    with Cons.prems have "k = 0" by simp
    with True show ?thesis by (auto simp: prefix_def)
  next
    case False
    with Cons.prems obtain j where j: "find_str cs pat = Some j" and k: "k = Suc j"
      by auto
    from Cons.IH [OF j] obtain suf where "cs = take j cs @ pat @ suf" by blast
    with k show ?thesis by auto
  qed
qed

lemma find_str_Some_least:
  "find_str s pat = Some k \<Longrightarrow> s = pre @ pat @ suf \<Longrightarrow> k \<le> length pre"
proof (induction s arbitrary: k pre)
  case Nil
  then show ?case by (simp split: if_splits)
next
  case (Cons c cs)
  show ?case
  proof (cases "prefix pat (c # cs)")
    case True
    with Cons.prems(1) have "k = 0" by simp
    then show ?thesis by simp
  next
    case False
    with Cons.prems(1) obtain j where j: "find_str cs pat = Some j" and k: "k = Suc j"
      by auto
    from False Cons.prems(2) have "pre \<noteq> []" by (auto simp: prefix_def)
    then obtain p ps where pre: "pre = p # ps" by (cases pre) auto
    with Cons.prems(2) have "cs = ps @ pat @ suf" by simp
    from Cons.IH [OF j this] k pre show ?thesis by simp
  qed
qed

lemma find_str_None:
  "find_str s pat = None \<Longrightarrow> s \<noteq> pre @ pat @ suf"
proof (induction s arbitrary: pre)
  case Nil
  then show ?case by (simp split: if_splits)
next
  case (Cons c cs)
  from Cons.prems have np: "\<not> prefix pat (c # cs)" and n: "find_str cs pat = None"
    by (auto split: if_splits)
  show ?case
  proof
    assume eq: "c # cs = pre @ pat @ suf"
    with np have "pre \<noteq> []" by (auto simp: prefix_def)
    then obtain p ps where "pre = p # ps" by (cases pre) auto
    with eq have "cs = ps @ pat @ suf" by simp
    with Cons.IH [OF n] show False by blast
  qed
qed

lemma filename_decomp:
  "\<exists>dir. p = dir @ filename p \<and> (dir = [] \<or> last dir = CHR ''/'')"
proof -
  let ?P = "\<lambda>c. c \<noteq> CHR ''/''"
  have "rev p = takeWhile ?P (rev p) @ dropWhile ?P (rev p)" by simp
  then have "p = rev (dropWhile ?P (rev p)) @ filename p"
    unfolding filename_def by (metis rev_append rev_rev_ident)
  moreover have "dropWhile ?P (rev p) = [] \<or> hd (dropWhile ?P (rev p)) = CHR ''/''"
    using hd_dropWhile [of ?P "rev p"] by auto
  then have "rev (dropWhile ?P (rev p)) = [] \<or> last (rev (dropWhile ?P (rev p))) = CHR ''/''"
    by (auto simp: last_rev)
  ultimately show ?thesis by blast
qed

lemma filename_no_separator: "CHR ''/'' \<notin> set (filename p)"
  unfolding filename_def using set_takeWhileD by fastforce

text \<open>
  Claim C8.  For every path, \<open>infer_distribution\<close> works on the base file name (what
  follows the last separator of the path) and returns the part of it before the first
  occurrence of \<open>_n\<close>: the base name is the result, then \<open>_n\<close>, then a rest, and no
  occurrence of \<open>_n\<close> starts earlier.  When \<open>_n\<close> does not occur, the result is
  \<open>unknown\<close>.  On \<open>random_n100000_seed1.bin\<close> the result is \<open>random\<close>, on \<open>nodist.bin\<close>
  it is \<open>unknown\<close>.  The function is total and depends on the path alone.
\<close>

theorem infer_distribution_spec:
  "(\<exists>dir. p = dir @ filename p \<and> (dir = [] \<or> last dir = CHR ''/''))
   \<and> CHR ''/'' \<notin> set (filename p)
   \<and> ((\<exists>pre suf. filename p = pre @ ''_n'' @ suf) \<longrightarrow>
        (\<exists>suf. filename p = infer_distribution p @ ''_n'' @ suf)
        \<and> (\<forall>pre suf. filename p = pre @ ''_n'' @ suf \<longrightarrow>
              length (infer_distribution p) \<le> length pre))
   \<and> ((\<nexists>pre suf. filename p = pre @ ''_n'' @ suf) \<longrightarrow> infer_distribution p = ''unknown'')
   \<and> infer_distribution ''random_n100000_seed1.bin'' = ''random''
   \<and> infer_distribution ''nodist.bin'' = ''unknown''"
proof -
  have occ: "(\<exists>suf. filename p = infer_distribution p @ ''_n'' @ suf)
        \<and> (\<forall>pre suf. filename p = pre @ ''_n'' @ suf \<longrightarrow>
              length (infer_distribution p) \<le> length pre)"
    if "\<exists>pre suf. filename p = pre @ ''_n'' @ suf"
  proof -
    from that find_str_None [of "filename p" "''_n''"]
    obtain k where k: "find_str (filename p) ''_n'' = Some k"
      by (cases "find_str (filename p) ''_n''") auto
    then have inf: "infer_distribution p = take k (filename p)"
      by (simp add: infer_distribution_def)
    from find_str_Some_decomp [OF k] obtain suf where
      d: "filename p = take k (filename p) @ ''_n'' @ suf" by blast
    then have kl: "k \<le> length (filename p)"
      by (metis linear take_all append_eq_conv_conj append_self_conv list.distinct(1) append_is_Nil_conv)
    have "length (infer_distribution p) \<le> length pre"
      if "filename p = pre @ ''_n'' @ suf'" for pre suf'
      using find_str_Some_least [OF k that] kl inf by simp
    with d inf show ?thesis by metis
  qed
  have absent: "infer_distribution p = ''unknown''"
    if "\<nexists>pre suf. filename p = pre @ ''_n'' @ suf"
  proof (cases "find_str (filename p) ''_n''")
    case None
    then show ?thesis by (simp add: infer_distribution_def)
  next
    case (Some k)
    from find_str_Some_decomp [OF Some] that show ?thesis by blast
  qed
  have ex1: "infer_distribution ''random_n100000_seed1.bin'' = ''random''"
    by (simp add: infer_distribution_def filename_def)
  have ex2: "infer_distribution ''nodist.bin'' = ''unknown''"
    by (simp add: infer_distribution_def filename_def)
  from filename_decomp [of p] filename_no_separator [of p] occ absent ex1 ex2
  show ?thesis by blast
qed

theorem infer_distribution_spec_witness:
  "filename ''datasets/ints/sorted_n5000_seed7.bin'' = ''sorted'' @ ''_n'' @ ''5000_seed7.bin''
   \<and> length (infer_distribution ''datasets/ints/sorted_n5000_seed7.bin'') \<le> length ''sorted''
   \<and> (\<nexists>pre suf. filename ''plain.bin'' = pre @ ''_n'' @ suf)
   \<and> infer_distribution ''plain.bin'' = ''unknown''"
proof -
  have f: "filename ''datasets/ints/sorted_n5000_seed7.bin'' = ''sorted'' @ ''_n'' @ ''5000_seed7.bin''"
    by (simp add: filename_def)
  have n: "find_str (filename ''plain.bin'') ''_n'' = None"
    by (simp add: filename_def)
  have a: "\<nexists>pre suf. filename ''plain.bin'' = pre @ ''_n'' @ suf"
    using find_str_None [OF n] by blast
  from infer_distribution_spec [of "''datasets/ints/sorted_n5000_seed7.bin''"] f
  have "length (infer_distribution ''datasets/ints/sorted_n5000_seed7.bin'') \<le> length ''sorted''"
    by blast
  moreover from infer_distribution_spec [of "''plain.bin''"] a
  have "infer_distribution ''plain.bin'' = ''unknown''" by blast
  ultimately show ?thesis using f a by blast
qed

text \<open>
  Claim C10.  When the base file name begins with \<open>_n\<close>, the label is the empty string,
  not \<open>unknown\<close>, and the distribution field (index 6) of a row built with it is empty.
\<close>

theorem infer_distribution_leading_marker:
  "prefix ''_n'' (filename p) \<Longrightarrow>
     infer_distribution p = [] \<and> infer_distribution p \<noteq> ''unknown''
     \<and> make_row e a n (infer_distribution p) rep ok ! 6 = []"
proof -
  assume "prefix ''_n'' (filename p)"
  then have "find_str (filename p) ''_n'' = Some 0"
    by (cases "filename p") auto
  then have "infer_distribution p = []" by (simp add: infer_distribution_def)
  then show ?thesis by (simp add: make_row_def)
qed

theorem infer_distribution_leading_marker_witness:
  "prefix ''_n'' (filename ''datasets/_n100.bin'') \<and> infer_distribution ''datasets/_n100.bin'' = []"
proof -
  have h: "prefix ''_n'' (filename ''datasets/_n100.bin'')" by (simp add: filename_def)
  from infer_distribution_leading_marker [OF h] h show ?thesis by blast
qed

subsection \<open>The dataset loader\<close>

lemma of_char_less_256: "(of_char c :: nat) < 256"
proof -
  have "(of_char c :: nat) mod 256 = of_char c" by (rule of_char_mod_256)
  moreover have "(of_char c :: nat) mod 256 < 256" by simp
  ultimately show ?thesis by simp
qed

lemma unat_le32:
  "unat (le32 [b0, b1, b2, b3]) =
     of_char b0 + 256 * of_char b1 + 65536 * of_char b2 + 16777216 * of_char b3"
proof -
  let ?m = "(of_char b0 :: nat) + 256 * of_char b1 + 65536 * of_char b2 + 16777216 * of_char b3"
  have "?m < 4294967296"
    using of_char_less_256 [of b0] of_char_less_256 [of b1]
      of_char_less_256 [of b2] of_char_less_256 [of b3] by linarith
  then have "?m < 2 ^ LENGTH(32)" by simp
  then have "unat (word_of_nat ?m :: 32 word) = ?m"
    by (rule of_nat_inverse [OF refl])
  then show ?thesis unfolding le32_def by simp
qed

lemma length_decode_int32s: "length (decode_int32s k bs) = k"
  by (induction k arbitrary: bs) auto

lemma nth_decode_int32s:
  "i < k \<Longrightarrow> decode_int32s k bs ! i = le32 (take 4 (drop (4 * i) bs))"
proof (induction k arbitrary: bs i)
  case 0
  then show ?case by simp
next
  case (Suc k)
  show ?case
  proof (cases i)
    case 0
    then show ?thesis by simp
  next
    case (Suc j)
    with Suc.prems have "j < k" by simp
    from Suc.IH [OF this, of "drop 4 bs"] Suc show ?thesis
      by (simp add: add.commute)
  qed
qed

lemma unat_le32_huge:
  "unat (le32 (take 4 dataset_huge)) = 4294967295"
  "unat (le32 dataset_huge) = 4294967295"
proof -
  have "unat (le32 [CHR 0xFF, CHR 0xFF, CHR 0xFF, CHR 0xFF]) = 4294967295"
    by (simp add: unat_le32)
  then show "unat (le32 (take 4 dataset_huge)) = 4294967295"
    "unat (le32 dataset_huge) = 4294967295"
    by (simp_all add: dataset_huge_def)
qed

text \<open>
  Claim C3, as amended.  Let the file at \<open>path\<close> exist.  If it holds fewer than 4 bytes,
  the load fails reading the header.  Otherwise let \<open>n\<close> be the unsigned little-endian
  value of its first four bytes \<open>b0 b1 b2 b3\<close> and \<open>payload\<close> the bytes after them.  The
  vector of \<open>n\<close> integers is allocated before the payload is read: when \<open>n\<close> exceeds what
  a vector can be allocated with, the load throws \<open>std::bad_alloc\<close>, whatever the payload.
  When the vector can be allocated: if the payload has fewer than \<open>4 n\<close> bytes the load
  fails reading the payload (this and the header failure are the I/O errors of the
  specification); if it has more, the load fails with the trailing-bytes error (the
  format error of the specification); if it has exactly \<open>4 n\<close> bytes the load returns
  exactly \<open>n\<close> integers, the \<open>i\<close>-th one being the little-endian reading of the \<open>i\<close>-th
  group of four payload bytes, in file order.
\<close>

theorem read_bin_int32_le_spec:
  fixes n :: nat
  assumes fl: "files s path = Some bytes"
    and count: "n = of_char b0 + 256 * of_char b1 + 65536 * of_char b2 + 16777216 * of_char b3"
  shows "(length bytes < 4 \<longrightarrow>
            read_bin_int32_le s path = Inl (RuntimeError (''Failed to read header from: '' @ path)))
       \<and> (bytes = [b0, b1, b2, b3] @ payload \<and> alloc_limit s < n \<longrightarrow>
            read_bin_int32_le s path = Inl BadAlloc)
       \<and> (bytes = [b0, b1, b2, b3] @ payload \<and> n \<le> alloc_limit s \<and> length payload < n * 4 \<longrightarrow>
            read_bin_int32_le s path = Inl (RuntimeError (''Failed to read payload from: '' @ path)))
       \<and> (bytes = [b0, b1, b2, b3] @ payload \<and> n \<le> alloc_limit s \<and> n * 4 < length payload \<longrightarrow>
            read_bin_int32_le s path = Inl (RuntimeError (''File has extra trailing bytes: '' @ path)))
       \<and> (bytes = [b0, b1, b2, b3] @ payload \<and> n \<le> alloc_limit s \<and> length payload = n * 4 \<longrightarrow>
            (\<exists>vs. read_bin_int32_le s path = Inr vs \<and> length vs = n
                \<and> (\<forall>i<n. vs ! i = le32 (take 4 (drop (4 * i) payload)))))"
proof -
  have short: "read_bin_int32_le s path = Inl (RuntimeError (''Failed to read header from: '' @ path))"
    if "length bytes < 4"
    using that fl by (simp add: read_bin_int32_le_def)
  have hd: "unat (le32 (take 4 bytes)) = n \<and> drop 4 bytes = payload \<and> \<not> length bytes < 4"
    if "bytes = [b0, b1, b2, b3] @ payload"
    using that count unat_le32 [of b0 b1 b2 b3] by simp
  have mem: "read_bin_int32_le s path = Inl BadAlloc"
    if "bytes = [b0, b1, b2, b3] @ payload" "alloc_limit s < n"
    using hd [OF that(1)] that(2) fl by (simp add: read_bin_int32_le_def)
  have pay: "read_bin_int32_le s path = Inl (RuntimeError (''Failed to read payload from: '' @ path))"
    if "bytes = [b0, b1, b2, b3] @ payload" "n \<le> alloc_limit s" "length payload < n * 4"
    using hd [OF that(1)] that(2,3) fl by (simp add: read_bin_int32_le_def)
  have extra: "read_bin_int32_le s path = Inl (RuntimeError (''File has extra trailing bytes: '' @ path))"
    if "bytes = [b0, b1, b2, b3] @ payload" "n \<le> alloc_limit s" "n * 4 < length payload"
    using hd [OF that(1)] that(2,3) fl by (simp add: read_bin_int32_le_def)
  have ok: "\<exists>vs. read_bin_int32_le s path = Inr vs \<and> length vs = n
                \<and> (\<forall>i<n. vs ! i = le32 (take 4 (drop (4 * i) payload)))"
    if "bytes = [b0, b1, b2, b3] @ payload" "n \<le> alloc_limit s" "length payload = n * 4"
  proof -
    from hd [OF that(1)] that(2,3) fl
    have "read_bin_int32_le s path = Inr (decode_int32s n payload)"
      by (simp add: read_bin_int32_le_def)
    then show ?thesis
      by (simp add: length_decode_int32s nth_decode_int32s)
  qed
  from short mem pay extra ok show ?thesis by blast
qed

theorem read_bin_int32_le_spec_witness:
  "files (initial_state [''d.bin'' \<mapsto> dataset_two] {}) ''d.bin''
     = Some ([CHR 0x02, CHR 0x00, CHR 0x00, CHR 0x00] @ drop 4 dataset_two)
   \<and> 2 \<le> alloc_limit (initial_state [''d.bin'' \<mapsto> dataset_two] {})
   \<and> length (drop 4 dataset_two) = 2 * 4
   \<and> (\<exists>vs. read_bin_int32_le (initial_state [''d.bin'' \<mapsto> dataset_two] {}) ''d.bin'' = Inr vs
          \<and> length vs = 2
          \<and> (\<forall>i<2. vs ! i = le32 (take 4 (drop (4 * i) (drop 4 dataset_two)))))
   \<and> read_bin_int32_le (initial_state [''d.bin'' \<mapsto> take 9 dataset_two] {}) ''d.bin''
        = Inl (RuntimeError ''Failed to read payload from: d.bin'')
   \<and> read_bin_int32_le (initial_state [''d.bin'' \<mapsto> dataset_two @ [CHR 0x00]] {}) ''d.bin''
        = Inl (RuntimeError ''File has extra trailing bytes: d.bin'')
   \<and> read_bin_int32_le (initial_state [''d.bin'' \<mapsto> take 3 dataset_two] {}) ''d.bin''
        = Inl (RuntimeError ''Failed to read header from: d.bin'')
   \<and> alloc_limit (initial_state [''d.bin'' \<mapsto> dataset_huge] {}) < 4294967295
   \<and> read_bin_int32_le (initial_state [''d.bin'' \<mapsto> dataset_huge] {}) ''d.bin'' = Inl BadAlloc"
proof -
  let ?hd = "[CHR 0x02, CHR 0x00, CHR 0x00, CHR 0x00]"
  have n: "(2::nat) = of_char (CHR 0x02) + 256 * of_char (CHR 0x00)
              + 65536 * of_char (CHR 0x00) + 16777216 * of_char (CHR 0x00)"
    by simp
  have m: "(4294967295::nat) = of_char (CHR 0xFF) + 256 * of_char (CHR 0xFF)
              + 65536 * of_char (CHR 0xFF) + 16777216 * of_char (CHR 0xFF)"
    by simp
  have lim: "2 \<le> alloc_limit (initial_state fs {})" "alloc_limit (initial_state fs {}) < 4294967295"
    for fs
    by (simp_all add: initial_state_def)
  have f1: "files (initial_state [''d.bin'' \<mapsto> dataset_two] {}) ''d.bin'' = Some dataset_two"
    by (simp add: initial_state_def)
  have d1: "dataset_two = ?hd @ drop 4 dataset_two" "length (drop 4 dataset_two) = 2 * 4"
    by (simp_all add: dataset_two_def)
  have f2: "files (initial_state [''d.bin'' \<mapsto> take 9 dataset_two] {}) ''d.bin''
              = Some (take 9 dataset_two)"
    by (simp add: initial_state_def)
  have d2: "take 9 dataset_two = ?hd @ drop 4 (take 9 dataset_two)"
    "length (drop 4 (take 9 dataset_two)) < 2 * 4"
    by (simp_all add: dataset_two_def)
  have f3: "files (initial_state [''d.bin'' \<mapsto> dataset_two @ [CHR 0x00]] {}) ''d.bin''
              = Some (dataset_two @ [CHR 0x00])"
    by (simp add: initial_state_def)
  have d3: "dataset_two @ [CHR 0x00] = ?hd @ drop 4 (dataset_two @ [CHR 0x00])"
    "2 * 4 < length (drop 4 (dataset_two @ [CHR 0x00]))"
    by (simp_all add: dataset_two_def)
  have f4: "files (initial_state [''d.bin'' \<mapsto> take 3 dataset_two] {}) ''d.bin''
              = Some (take 3 dataset_two)"
    by (simp add: initial_state_def)
  have d4: "length (take 3 dataset_two) < 4"
    by (simp add: dataset_two_def)
  have f5: "files (initial_state [''d.bin'' \<mapsto> dataset_huge] {}) ''d.bin'' = Some dataset_huge"
    by (simp add: initial_state_def)
  have d5: "dataset_huge = [CHR 0xFF, CHR 0xFF, CHR 0xFF, CHR 0xFF] @ []"
    by (simp add: dataset_huge_def)
  from read_bin_int32_le_spec [OF f1 n, of "drop 4 dataset_two"] d1 lim(1)
  have "\<exists>vs. read_bin_int32_le (initial_state [''d.bin'' \<mapsto> dataset_two] {}) ''d.bin'' = Inr vs
          \<and> length vs = 2
          \<and> (\<forall>i<2. vs ! i = le32 (take 4 (drop (4 * i) (drop 4 dataset_two))))"
    by blast
  moreover from read_bin_int32_le_spec [OF f2 n, of "drop 4 (take 9 dataset_two)"] d2 lim(1)
  have "read_bin_int32_le (initial_state [''d.bin'' \<mapsto> take 9 dataset_two] {}) ''d.bin''
        = Inl (RuntimeError (''Failed to read payload from: '' @ ''d.bin''))"
    by blast
  moreover from read_bin_int32_le_spec [OF f3 n, of "drop 4 (dataset_two @ [CHR 0x00])"] d3 lim(1)
  have "read_bin_int32_le (initial_state [''d.bin'' \<mapsto> dataset_two @ [CHR 0x00]] {}) ''d.bin''
        = Inl (RuntimeError (''File has extra trailing bytes: '' @ ''d.bin''))"
    by blast
  moreover from read_bin_int32_le_spec [OF f4 n] d4
  have "read_bin_int32_le (initial_state [''d.bin'' \<mapsto> take 3 dataset_two] {}) ''d.bin''
        = Inl (RuntimeError (''Failed to read header from: '' @ ''d.bin''))"
    by blast
  moreover from read_bin_int32_le_spec [OF f5 m, of "[]"] d5 lim(2)
  have "read_bin_int32_le (initial_state [''d.bin'' \<mapsto> dataset_huge] {}) ''d.bin'' = Inl BadAlloc"
    by blast
  ultimately show ?thesis using f1 d1 lim by simp
qed

text \<open>
  Claim C3 as the specification words it fails on a file that declares more integers than
  can be allocated: the payload of the file below is shorter than the \<open>4 n\<close> bytes its
  header declares, and the load ends with \<open>std::bad_alloc\<close>, thrown by the allocation of
  the vector, not with the payload error.
\<close>

theorem read_bin_int32_le_alloc_counterexample:
  "files (initial_state [''d.bin'' \<mapsto> dataset_huge] {}) ''d.bin'' = Some dataset_huge
   \<and> length (drop 4 dataset_huge) < unat (le32 (take 4 dataset_huge)) * 4
   \<and> read_bin_int32_le (initial_state [''d.bin'' \<mapsto> dataset_huge] {}) ''d.bin'' = Inl BadAlloc
   \<and> read_bin_int32_le (initial_state [''d.bin'' \<mapsto> dataset_huge] {}) ''d.bin''
        \<noteq> Inl (RuntimeError ''Failed to read payload from: d.bin'')"
proof -
  have f: "files (initial_state [''d.bin'' \<mapsto> dataset_huge] {}) ''d.bin'' = Some dataset_huge"
    by (simp add: initial_state_def)
  have l: "length dataset_huge = 4" by (simp add: dataset_huge_def)
  have a: "alloc_limit (initial_state [''d.bin'' \<mapsto> dataset_huge] {}) = 1000000"
    by (simp add: initial_state_def)
  have r: "read_bin_int32_le (initial_state [''d.bin'' \<mapsto> dataset_huge] {}) ''d.bin'' = Inl BadAlloc"
    by (simp add: read_bin_int32_le_def f l a unat_le32_huge Let_def)
  from f l r show ?thesis by (simp add: unat_le32_huge)
qed

text \<open>
  Such a file ends the whole run in the handler of \<open>main\<close>: nothing is printed or
  recorded, the message names the exception, and the exit status is 1.
\<close>

lemma main_bad_alloc:
  "main std_sort example_env [''--dataset'', ''d.bin'']
     (initial_state [''d.bin'' \<mapsto> dataset_huge] {})
   = ((initial_state [''d.bin'' \<mapsto> dataset_huge] {})\<lparr>cerr := ''Error: std::bad_alloc\<newline>''\<rparr>, 1)"
proof -
  have p: "parse_args [''--dataset'', ''d.bin''] = Parsed (default_args\<lparr>dataset := ''d.bin''\<rparr>)"
    by (simp add: parse_args_def default_args_def)
  have f: "files (initial_state [''d.bin'' \<mapsto> dataset_huge] {}) ''d.bin'' = Some dataset_huge"
    by (simp add: initial_state_def)
  have l: "length dataset_huge = 4" by (simp add: dataset_huge_def)
  have a: "alloc_limit (initial_state [''d.bin'' \<mapsto> dataset_huge] {}) = 1000000"
    by (simp add: initial_state_def)
  have r: "read_bin_int32_le (initial_state [''d.bin'' \<mapsto> dataset_huge] {}) ''d.bin'' = Inl BadAlloc"
    by (simp add: read_bin_int32_le_def f l a unat_le32_huge Let_def)
  have c: "cerr (initial_state [''d.bin'' \<mapsto> dataset_huge] {}) = []"
    by (simp add: initial_state_def)
  show ?thesis
    by (simp add: main_def p r catch_exn_def c)
qed

subsection \<open>The result recorder\<close>

lemma write_file_fields [simp]:
  "files (write_file p t s) p = Some ((case files s p of None \<Rightarrow> [] | Some c \<Rightarrow> c) @ t)"
  "q \<noteq> p \<Longrightarrow> files (write_file p t s) q = files s q"
  "unwritable (write_file p t s) = unwritable s"
  "mkdir_error (write_file p t s) = mkdir_error s"
  "cout (write_file p t s) = cout s"
  "cerr (write_file p t s) = cerr s"
  "values_vec (write_file p t s) = values_vec s"
  "tmp (write_file p t s) = tmp s"
  "sort_calls (write_file p t s) = sort_calls s"
  by (simp_all add: write_file_def)

lemma write_file_twice: "write_file p b (write_file p a s) = write_file p (a @ b) s"
  by (simp add: write_file_def)

lemma write_file_nil: "files s p = Some c \<Longrightarrow> write_file p [] s = s"
  by (simp add: write_file_def map_upd_triv)

lemma append_row_existing:
  assumes "csv_path \<notin> unwritable s"
    and "CHR ''/'' \<in> set csv_path \<longrightarrow> mkdir_error s csv_path = None"
    and "files s csv_path = Some c"
  shows "append_row csv_path row s = Inr (write_file csv_path (comma_join row @ ''\<newline>'') s)"
  using assms
  by (auto simp: append_row_def ensure_parent_dir_def file_exists_def write_file_nil
        simp del: append_Cons)

lemma append_row_absent:
  assumes "csv_path \<notin> unwritable s"
    and "CHR ''/'' \<in> set csv_path \<longrightarrow> mkdir_error s csv_path = None"
    and "files s csv_path = None"
  shows "append_row csv_path row s =
           Inr (write_file csv_path (header_line @ comma_join row @ ''\<newline>'') s)"
  using assms
  by (auto simp: append_row_def ensure_parent_dir_def file_exists_def write_file_twice)





subsection \<open>The row\<close>

lemma isdigit_digit_char: "d < 10 \<Longrightarrow> isdigit (digit_char d)"
proof -
  assume "d < 10"
  then have "d = 0 \<or> d = 1 \<or> d = 2 \<or> d = 3 \<or> d = 4 \<or> d = 5 \<or> d = 6 \<or> d = 7 \<or> d = 8 \<or> d = 9"
    by arith
  then show ?thesis
    by (auto simp: digit_char_def isdigit_def)
qed

lemma show_nat_digits: "show_nat k \<noteq> [] \<and> list_all isdigit (show_nat k)"
proof (induction k rule: show_nat.induct)
  case (1 k)
  show ?case
  proof (cases "k < 10")
    case True
    then show ?thesis
      by (subst (1 2) show_nat.simps) (simp add: isdigit_digit_char)
  next
    case False
    with 1 have "list_all isdigit (show_nat (k div 10))" by simp
    with False show ?thesis
      by (subst (1 2) show_nat.simps) (simp add: isdigit_digit_char)
  qed
qed

lemma show_nat_0: "show_nat 0 = ''0''"
  by (subst show_nat.simps) (simp add: digit_char_def)

lemma decimal_append: "decimal acc (xs @ ys) = decimal (decimal acc xs) ys"
  by (induction xs arbitrary: acc) auto

lemma of_char_digit_char: "d < 10 \<Longrightarrow> (of_char (digit_char d) :: nat) - 48 = d"
proof -
  assume "d < 10"
  then have "d = 0 \<or> d = 1 \<or> d = 2 \<or> d = 3 \<or> d = 4 \<or> d = 5 \<or> d = 6 \<or> d = 7 \<or> d = 8 \<or> d = 9"
    by arith
  then show ?thesis
    by (auto simp: digit_char_def)
qed

lemma digit_char_nonzero: "0 < d \<Longrightarrow> d < 10 \<Longrightarrow> digit_char d \<noteq> CHR ''0''"
proof -
  assume "0 < d" "d < 10"
  then have "d = 1 \<or> d = 2 \<or> d = 3 \<or> d = 4 \<or> d = 5 \<or> d = 6 \<or> d = 7 \<or> d = 8 \<or> d = 9"
    by arith
  then show ?thesis
    by (auto simp: digit_char_def)
qed

lemma decimal_show_nat: "decimal 0 (show_nat k) = k"
proof (induction k rule: show_nat.induct)
  case (1 k)
  show ?case
  proof (cases "k < 10")
    case True
    then show ?thesis
      by (subst show_nat.simps) (simp add: of_char_digit_char)
  next
    case False
    with 1 have "decimal 0 (show_nat (k div 10)) = k div 10" by simp
    with False show ?thesis
      by (subst show_nat.simps) (simp add: decimal_append of_char_digit_char)
  qed
qed

lemma hd_show_nat: "k \<noteq> 0 \<Longrightarrow> hd (show_nat k) \<noteq> CHR ''0''"
proof (induction k rule: show_nat.induct)
  case (1 k)
  show ?case
  proof (cases "k < 10")
    case True
    with "1.prems" show ?thesis
      by (subst show_nat.simps) (simp add: digit_char_nonzero)
  next
    case False
    then have "k div 10 \<noteq> 0" by simp
    with 1 False have "hd (show_nat (k div 10)) \<noteq> CHR ''0''" by simp
    moreover have "show_nat (k div 10) \<noteq> []" using show_nat_digits by blast
    ultimately show ?thesis using False
      by (subst show_nat.simps) simp
  qed
qed

lemma decimal_numeral_show_nat: "decimal_numeral (show_nat k) k"
proof -
  have "hd (show_nat k) = CHR ''0'' \<longrightarrow> show_nat k = ''0''"
    using hd_show_nat [of k] show_nat_0 by (cases "k = 0") auto
  then show ?thesis
    using show_nat_digits [of k] decimal_show_nat [of k] by (simp add: decimal_numeral_def)
qed

lemma decimal_numeral_inj: "decimal_numeral ds i \<Longrightarrow> decimal_numeral ds j \<Longrightarrow> i = j"
  by (simp add: decimal_numeral_def)

lemma to_string_numeral:
  "(0 \<le> i \<longrightarrow> decimal_numeral (to_string i) (nat i))
   \<and> (i < 0 \<longrightarrow> to_string i = CHR ''-'' # tl (to_string i)
                  \<and> decimal_numeral (tl (to_string i)) (nat (- i)))"
  by (simp add: to_string_def decimal_numeral_show_nat)

lemma round_half_even_nearest:
  assumes "0 < den"
  shows "2 * \<bar>int num - int (round_half_even num den) * int den\<bar> \<le> int den
     \<and> (2 * \<bar>int num - int (round_half_even num den) * int den\<bar> = int den
          \<longrightarrow> even (round_half_even num den))"
proof -
  define q r where "q = num div den" and "r = num mod den"
  have num: "int num = int q * int den + int r"
    unfolding q_def r_def by (metis of_nat_add of_nat_mult div_mult_mod_eq)
  have r: "int r < int den" unfolding r_def using assms by simp
  show ?thesis
  proof (cases "den < 2 * r \<or> (2 * r = den \<and> odd q)")
    case True
    then have k: "round_half_even num den = q + 1"
      by (simp add: round_half_even_def Let_def q_def r_def)
    have "int num - int (q + 1) * int den = int r - int den"
      using num by (simp add: algebra_simps)
    with r have d: "\<bar>int num - int (q + 1) * int den\<bar> = int den - int r" by simp
    from True show ?thesis unfolding k d by auto
  next
    case False
    then have k: "round_half_even num den = q"
      by (simp add: round_half_even_def Let_def q_def r_def)
    have d: "\<bar>int num - int q * int den\<bar> = int r" using num by simp
    from False show ?thesis unfolding k d by auto
  qed
qed

lemma nearest_thousandth_unique:
  assumes "nearest_thousandth v k" and "nearest_thousandth v k'"
  shows "k = k'"
proof (cases "0 \<le> expo v")
  case True
  with assms show ?thesis by (simp add: nearest_thousandth_def)
next
  case False
  define D :: int where "D = 2 ^ nat (- expo v)"
  define N :: int where "N = int (1000 * mant v)"
  have D: "0 < D" by (simp add: D_def)
  from assms False have a: "2 * \<bar>N - int k * D\<bar> \<le> D" "2 * \<bar>N - int k * D\<bar> = D \<longrightarrow> even k"
    and b: "2 * \<bar>N - int k' * D\<bar> \<le> D" "2 * \<bar>N - int k' * D\<bar> = D \<longrightarrow> even k'"
    by (simp_all add: nearest_thousandth_def D_def N_def)
  have step: "j = i" if "i \<le> j"
    and a: "2 * \<bar>N - int i * D\<bar> \<le> D" "2 * \<bar>N - int i * D\<bar> = D \<longrightarrow> even i"
    and b: "2 * \<bar>N - int j * D\<bar> \<le> D" "2 * \<bar>N - int j * D\<bar> = D \<longrightarrow> even j" for i j
  proof (rule ccontr)
    assume "j \<noteq> i"
    with that(1) have lt: "i < j" by simp
    then obtain m where j: "j = i + 1 + m"
      by (metis less_iff_Suc_add Suc_eq_plus1 add.assoc add.commute)
    define X where "X = N - int i * D"
    define M where "M = int m * D"
    have jD: "N - int j * D = X - D - M"
      unfolding j X_def M_def by (simp add: algebra_simps)
    have mD: "0 \<le> M" unfolding M_def using D by simp
    from a(1) have a1: "2 * \<bar>X\<bar> \<le> D" by (simp add: X_def)
    from b(1) have b1: "2 * \<bar>X - D - M\<bar> \<le> D" by (simp add: jD)
    from a1 b1 mD have m0: "M = 0" by arith
    from a1 b1 m0 have tie1: "2 * X = D" by arith
    from m0 D have "m = 0" by (simp add: M_def)
    with j have j1: "j = i + 1" by simp
    from tie1 D have "2 * \<bar>X\<bar> = D" by arith
    with a(2) have "even i" by (simp add: X_def)
    moreover from tie1 m0 D have "2 * \<bar>X - D - M\<bar> = D" by arith
    with b(2) have "even j" by (simp add: jD)
    ultimately show False using j1 by simp
  qed
  show ?thesis
  proof (cases "k \<le> k'")
    case True
    from step [OF True a b] show ?thesis by simp
  next
    case False
    then have "k' \<le> k" by simp
    from step [OF this b a] show ?thesis by simp
  qed
qed


lemma three_digits:
  "decimal 0 [digit_char (k div 100 mod 10), digit_char (k div 10 mod 10), digit_char (k mod 10)]
     = k mod 1000"
proof -
  have "decimal 0 [digit_char (k div 100 mod 10), digit_char (k div 10 mod 10), digit_char (k mod 10)]
          = 100 * (k div 100 mod 10) + 10 * (k div 10 mod 10) + k mod 10"
    by (simp add: of_char_digit_char)
  also have "\<dots> = k mod 1000"
    using mod_mult2_eq [of k 100 10] mod_mult2_eq [of k 10 10] by simp
  finally show ?thesis .
qed

lemma fixed3_nearest:
  "nearest_thousandth v
     (if 0 \<le> expo v then 1000 * mant v * 2 ^ nat (expo v)
      else round_half_even (1000 * mant v) (2 ^ nat (- expo v)))"
proof (cases "0 \<le> expo v")
  case True
  then show ?thesis by (simp add: nearest_thousandth_def)
next
  case False
  have "(0::nat) < 2 ^ nat (- expo v)" by simp
  from round_half_even_nearest [OF this, of "1000 * mant v"] False
  show ?thesis by (simp add: nearest_thousandth_def)
qed

lemma fixed3_value:
  "\<exists>ip d1 d2 d3. fixed3 v = (if neg v then ''-'' else []) @ ip @ ''.'' @ [d1, d2, d3]
      \<and> decimal_numeral ip (decimal 0 ip) \<and> isdigit d1 \<and> isdigit d2 \<and> isdigit d3
      \<and> nearest_thousandth v (1000 * decimal 0 ip + decimal 0 [d1, d2, d3])
      \<and> (\<forall>k. nearest_thousandth v k \<longrightarrow> k = 1000 * decimal 0 ip + decimal 0 [d1, d2, d3])"
proof -
  define k where "k = (if 0 \<le> expo v then 1000 * mant v * 2 ^ nat (expo v)
               else round_half_even (1000 * mant v) (2 ^ nat (- expo v)))"
  define ip where "ip = show_nat (k div 1000)"
  define d1 where "d1 = digit_char (k div 100 mod 10)"
  define d2 where "d2 = digit_char (k div 10 mod 10)"
  define d3 where "d3 = digit_char (k mod 10)"
  have f: "fixed3 v = (if neg v then ''-'' else []) @ ip @ ''.'' @ [d1, d2, d3]"
    unfolding fixed3_def k_def Let_def ip_def d1_def d2_def d3_def ..
  have ipn: "decimal_numeral ip (k div 1000)"
    unfolding ip_def by (rule decimal_numeral_show_nat)
  then have ipv: "decimal 0 ip = k div 1000" by (simp add: decimal_numeral_def)
  have fr: "decimal 0 [d1, d2, d3] = k mod 1000"
    unfolding d1_def d2_def d3_def by (rule three_digits)
  have kk: "1000 * decimal 0 ip + decimal 0 [d1, d2, d3] = k"
    unfolding ipv fr by simp
  have dg: "isdigit d1" "isdigit d2" "isdigit d3"
    unfolding d1_def d2_def d3_def by (simp_all add: isdigit_digit_char)
  have nk: "nearest_thousandth v k"
    unfolding k_def by (rule fixed3_nearest)
  have un: "\<forall>k'. nearest_thousandth v k' \<longrightarrow> k' = k"
    using nearest_thousandth_unique [OF _ nk] by blast
  from ipn ipv have "decimal_numeral ip (decimal 0 ip)" by simp
  with f dg nk un show ?thesis unfolding kk [symmetric] by blast
qed

text \<open>
  Claim C5.  The row of a repetition has exactly twelve fields, in the order of the
  header's names: the timestamp, \<open>sort\<close>, \<open>cpp\<close>, \<open>c++20\<close>, the algorithm, the dataset
  path, the distribution, \<open>n\<close>, the warmup count, the repetition index, the time and the
  outcome.  The text written for it is these twelve strings, each copied as it is,
  with one comma between neighbours.  The time is an optional minus sign, the decimal
  numeral of the whole part, a point and exactly three digits, and the number of
  thousandths they spell is the elapsed time rounded to the nearest thousandth (a tie to
  the even one), the only number that is.  The outcome is \<open>true\<close> or \<open>false\<close>.  The
  fields \<open>n\<close>, warmup count and repetition index are the decimal numerals of these numbers.
\<close>

theorem row_format:
  "length (make_row e a n dist rep ok) = 12
   \<and> comma_join (make_row e a n dist rep ok) =
       now_iso_local e rep @ '','' @ ''sort'' @ '','' @ ''cpp'' @ '','' @ ''c++20'' @ '','' @
       algo a @ '','' @ dataset a @ '','' @ dist @ '','' @ to_string n @ '','' @
       to_string (warmup a) @ '','' @ to_string (int rep) @ '','' @
       fixed3 (elapsed_ms e rep) @ '','' @ (if ok then ''true'' else ''false'')
   \<and> header_line =
       comma_join [''timestamp_iso'', ''task'', ''language'', ''language_version'', ''algo'',
                   ''dataset_file'', ''distribution'', ''n'', ''warmup_runs'', ''rep_idx'',
                   ''time_ms'', ''ok''] @ ''\<newline>''
   \<and> (\<exists>ip d1 d2 d3.
         make_row e a n dist rep ok ! 10 =
           (if neg (elapsed_ms e rep) then ''-'' else []) @ ip @ ''.'' @ [d1, d2, d3]
         \<and> decimal_numeral ip (decimal 0 ip) \<and> isdigit d1 \<and> isdigit d2 \<and> isdigit d3
         \<and> nearest_thousandth (elapsed_ms e rep) (1000 * decimal 0 ip + decimal 0 [d1, d2, d3])
         \<and> (\<forall>k. nearest_thousandth (elapsed_ms e rep) k \<longrightarrow>
                k = 1000 * decimal 0 ip + decimal 0 [d1, d2, d3]))
   \<and> make_row e a n dist rep True ! 11 = ''true''
   \<and> make_row e a n dist rep False ! 11 = ''false''
   \<and> (0 \<le> n \<longrightarrow> decimal_numeral (make_row e a n dist rep ok ! 7) (nat n))
   \<and> (0 \<le> warmup a \<longrightarrow> decimal_numeral (make_row e a n dist rep ok ! 8) (nat (warmup a)))
   \<and> decimal_numeral (make_row e a n dist rep ok ! 9) rep"
proof -
  have f10: "make_row e a n dist rep ok ! 10 = fixed3 (elapsed_ms e rep)"
    by (simp add: make_row_def)
  have t: "\<exists>ip d1 d2 d3.
         make_row e a n dist rep ok ! 10 =
           (if neg (elapsed_ms e rep) then ''-'' else []) @ ip @ ''.'' @ [d1, d2, d3]
         \<and> decimal_numeral ip (decimal 0 ip) \<and> isdigit d1 \<and> isdigit d2 \<and> isdigit d3
         \<and> nearest_thousandth (elapsed_ms e rep) (1000 * decimal 0 ip + decimal 0 [d1, d2, d3])
         \<and> (\<forall>k. nearest_thousandth (elapsed_ms e rep) k \<longrightarrow>
                k = 1000 * decimal 0 ip + decimal 0 [d1, d2, d3])"
    unfolding f10 by (rule fixed3_value)
  have len: "length (make_row e a n dist rep ok) = 12"
    by (simp add: make_row_def)
  have cj: "comma_join (make_row e a n dist rep ok) =
       now_iso_local e rep @ '','' @ ''sort'' @ '','' @ ''cpp'' @ '','' @ ''c++20'' @ '','' @
       algo a @ '','' @ dataset a @ '','' @ dist @ '','' @ to_string n @ '','' @
       to_string (warmup a) @ '','' @ to_string (int rep) @ '','' @
       fixed3 (elapsed_ms e rep) @ '','' @ (if ok then ''true'' else ''false'')"
    by (simp add: make_row_def)
  have hl: "header_line =
       comma_join [''timestamp_iso'', ''task'', ''language'', ''language_version'', ''algo'',
                   ''dataset_file'', ''distribution'', ''n'', ''warmup_runs'', ''rep_idx'',
                   ''time_ms'', ''ok''] @ ''\<newline>''"
    by (simp add: header_line_def)
  have tf: "make_row e a n dist rep True ! 11 = ''true''"
    "make_row e a n dist rep False ! 11 = ''false''"
    by (simp_all add: make_row_def)
  have f7: "0 \<le> n \<longrightarrow> decimal_numeral (make_row e a n dist rep ok ! 7) (nat n)"
    using to_string_numeral [of n] by (simp add: make_row_def)
  have f8: "0 \<le> warmup a \<longrightarrow> decimal_numeral (make_row e a n dist rep ok ! 8) (nat (warmup a))"
    using to_string_numeral [of "warmup a"] by (simp add: make_row_def)
  have f9: "decimal_numeral (make_row e a n dist rep ok ! 9) rep"
    using to_string_numeral [of "int rep"] by (simp add: make_row_def)
  show ?thesis
    by (rule conjI, rule len, rule conjI, rule cj, rule conjI, rule hl, rule conjI, rule t,
        rule conjI, rule tf(1), rule conjI, rule tf(2), rule conjI, rule f7, rule conjI, rule f8,
        rule f9)
qed

lemma show_nat_digit: "k < 10 \<Longrightarrow> show_nat k = [digit_char k]"
  by (subst show_nat.simps) simp

lemma show_nat_step: "10 \<le> k \<Longrightarrow> show_nat k = show_nat (k div 10) @ [digit_char (k mod 10)]"
  by (subst show_nat.simps) simp

lemma example_numbers:
  "to_string 0 = ''0''" "to_string 1 = ''1''" "to_string 2 = ''2''" "to_string 5 = ''5''"
  "to_string 37 = ''37''"
  "fixed3 \<lparr>neg = False, mant = 3, expo = - 4\<rparr> = ''0.188''"
  "fixed3 \<lparr>neg = False, mant = 5, expo = - 4\<rparr> = ''0.312''"
  "fixed3 \<lparr>neg = False, mant = 12345, expo = 2\<rparr> = ''49380.000''"
  by (simp_all add: to_string_def show_nat_digit show_nat_step digit_char_def fixed3_def
        round_half_even_def)

theorem row_format_witness:
  "comma_join (make_row example_env (default_args\<lparr>dataset := ''d.bin''\<rparr>) 2 ''unknown'' 0 True)
     = ''2024-05-01T12:00:00,sort,cpp,c++20,builtin,d.bin,unknown,2,5,0,0.188,true''
   \<and> comma_join (make_row (example_env\<lparr>elapsed_ms := (\<lambda>rep. \<lparr>neg = False, mant = 5, expo = - 4\<rparr>)\<rparr>)
                   (default_args\<lparr>dataset := ''d.bin''\<rparr>) 2 ''unknown'' 2 True)
     = ''2024-05-01T12:00:00,sort,cpp,c++20,builtin,d.bin,unknown,2,5,2,0.312,true''
   \<and> comma_join (make_row (example_env\<lparr>elapsed_ms := (\<lambda>rep. \<lparr>neg = False, mant = 12345, expo = 2\<rparr>)\<rparr>)
                   (default_args\<lparr>dataset := ''d.bin''\<rparr>) 2 ''unknown'' 37 False)
     = ''2024-05-01T12:00:00,sort,cpp,c++20,builtin,d.bin,unknown,2,5,37,49380.000,false''
   \<and> nearest_thousandth \<lparr>neg = False, mant = 3, expo = - 4\<rparr> 188
   \<and> nearest_thousandth \<lparr>neg = False, mant = 5, expo = - 4\<rparr> 312
   \<and> nearest_thousandth \<lparr>neg = False, mant = 12345, expo = 2\<rparr> 49380000
   \<and> (0::int) \<le> 2 \<and> 0 \<le> warmup (default_args\<lparr>dataset := ''d.bin''\<rparr>)
   \<and> decimal_numeral ''37'' 37"
proof -
  let ?a = "default_args\<lparr>dataset := ''d.bin''\<rparr>"
  let ?e1 = "example_env\<lparr>elapsed_ms := (\<lambda>rep. \<lparr>neg = False, mant = 5, expo = - 4\<rparr>)\<rparr>"
  let ?e2 = "example_env\<lparr>elapsed_ms := (\<lambda>rep. \<lparr>neg = False, mant = 12345, expo = 2\<rparr>)\<rparr>"
  have "comma_join (make_row example_env ?a 2 ''unknown'' 0 True) =
       now_iso_local example_env 0 @ '','' @ ''sort'' @ '','' @ ''cpp'' @ '','' @ ''c++20'' @ '','' @
       algo ?a @ '','' @ dataset ?a @ '','' @ ''unknown'' @ '','' @ to_string 2 @ '','' @
       to_string (warmup ?a) @ '','' @ to_string (int 0) @ '','' @
       fixed3 (elapsed_ms example_env 0) @ '','' @ (if True then ''true'' else ''false'')"
    by (rule row_format [THEN conjunct2, THEN conjunct1])
  also have "\<dots> = ''2024-05-01T12:00:00,sort,cpp,c++20,builtin,d.bin,unknown,2,5,0,0.188,true''"
    by (simp add: example_env_def default_args_def example_numbers)
  finally have 1: "comma_join (make_row example_env ?a 2 ''unknown'' 0 True) = ''2024-05-01T12:00:00,sort,cpp,c++20,builtin,d.bin,unknown,2,5,0,0.188,true''" .
  have "comma_join (make_row ?e1 ?a 2 ''unknown'' 2 True) =
       now_iso_local ?e1 2 @ '','' @ ''sort'' @ '','' @ ''cpp'' @ '','' @ ''c++20'' @ '','' @
       algo ?a @ '','' @ dataset ?a @ '','' @ ''unknown'' @ '','' @ to_string 2 @ '','' @
       to_string (warmup ?a) @ '','' @ to_string (int 2) @ '','' @
       fixed3 (elapsed_ms ?e1 2) @ '','' @ (if True then ''true'' else ''false'')"
    by (rule row_format [THEN conjunct2, THEN conjunct1])
  also have "\<dots> = ''2024-05-01T12:00:00,sort,cpp,c++20,builtin,d.bin,unknown,2,5,2,0.312,true''"
    by (simp add: example_env_def default_args_def example_numbers)
  finally have 2: "comma_join (make_row ?e1 ?a 2 ''unknown'' 2 True) = ''2024-05-01T12:00:00,sort,cpp,c++20,builtin,d.bin,unknown,2,5,2,0.312,true''" .
  have "comma_join (make_row ?e2 ?a 2 ''unknown'' 37 False) =
       now_iso_local ?e2 37 @ '','' @ ''sort'' @ '','' @ ''cpp'' @ '','' @ ''c++20'' @ '','' @
       algo ?a @ '','' @ dataset ?a @ '','' @ ''unknown'' @ '','' @ to_string 2 @ '','' @
       to_string (warmup ?a) @ '','' @ to_string (int 37) @ '','' @
       fixed3 (elapsed_ms ?e2 37) @ '','' @ (if False then ''true'' else ''false'')"
    by (rule row_format [THEN conjunct2, THEN conjunct1])
  also have "\<dots> = ''2024-05-01T12:00:00,sort,cpp,c++20,builtin,d.bin,unknown,2,5,37,49380.000,false''"
    by (simp add: example_env_def default_args_def example_numbers)
  finally have 3: "comma_join (make_row ?e2 ?a 2 ''unknown'' 37 False) = ''2024-05-01T12:00:00,sort,cpp,c++20,builtin,d.bin,unknown,2,5,37,49380.000,false''" .
  have n: "nearest_thousandth \<lparr>neg = False, mant = 3, expo = - 4\<rparr> 188"
    "nearest_thousandth \<lparr>neg = False, mant = 5, expo = - 4\<rparr> 312"
    "nearest_thousandth \<lparr>neg = False, mant = 12345, expo = 2\<rparr> 49380000"
    by (simp_all add: nearest_thousandth_def)
  have w: "(0::int) \<le> 2" "0 \<le> warmup ?a" by (simp_all add: default_args_def)
  have "make_row ?e2 ?a 2 ''unknown'' 37 False ! 9 = ''37''"
    by (simp add: make_row_def example_numbers)
  with row_format [of ?e2 ?a 2 "''unknown''" 37 False] have d: "decimal_numeral ''37'' 37"
    by simp
  show ?thesis
    by (rule conjI, rule 1, rule conjI, rule 2, rule conjI, rule 3, rule conjI, rule n(1),
        rule conjI, rule n(2), rule conjI, rule n(3), rule conjI, rule w(1), rule conjI,
        rule w(2), rule d)
qed

subsection \<open>Configuration errors\<close>

lemma parse_loop_exit_usage:
  "parse_loop argv a = Exit2 m \<Longrightarrow> suffix usage_text m"
proof (induction argv a rule: parse_loop.induct)
  case (1 a)
  then show ?case by simp
next
  case (2 arg rest a)
  show ?case
  proof (cases rest)
    case Nil
    with "2.prems" show ?thesis
      by (auto simp: suffix_def split: if_splits)
  next
    case (Cons v rest')
    with 2 show ?thesis
      by (auto simp: suffix_def split: if_splits sum.splits)
  qed
qed

lemma main_exit2:
  "parse_args argv = Exit2 m \<Longrightarrow> main srt e argv s = (s\<lparr>cerr := cerr s @ m\<rparr>, 2)"
  by (simp add: main_def)

text \<open>
  Claim C6, as amended.  When the loop over the arguments meets a flag without its value
  or an unknown flag, or when it ends with no dataset set, the process exits with
  status 2 and the usage text ends what it wrote to the error stream.  When the
  arguments parse, a dataset is set, and the warmup count is negative or the
  repetition count is not positive, or else the algorithm is not \<open>builtin\<close>, the process
  exits with status 2 after a one-line message, without the usage text.  In all these
  cases the final state is the initial one with only the error stream extended: nothing
  is printed, no file is read into memory, created or changed.
\<close>

theorem config_error_exit:
  "(parse_loop argv default_args = Exit2 m \<longrightarrow>
      main srt e argv s = (s\<lparr>cerr := cerr s @ m\<rparr>, 2) \<and> suffix usage_text m)
   \<and> (arg \<notin> {''--dataset'', ''--algo'', ''--warmup'', ''--reps'', ''--out'', ''--no-validate''} \<longrightarrow>
      parse_loop (arg # rest) a0 = Exit2 (''Unknown arg: '' @ arg @ ''\<newline>'' @ usage_text))
   \<and> (arg \<in> {''--dataset'', ''--algo'', ''--warmup'', ''--reps'', ''--out''} \<longrightarrow>
      parse_loop [arg] a0 = Exit2 usage_text)
   \<and> (parse_loop argv default_args = Parsed a \<and> dataset a = [] \<longrightarrow>
      main srt e argv s = (s\<lparr>cerr := cerr s @ ''--dataset is required\<newline>'' @ usage_text\<rparr>, 2))
   \<and> (parse_loop argv default_args = Parsed a \<and> dataset a \<noteq> [] \<and> (warmup a < 0 \<or> reps a \<le> 0) \<longrightarrow>
      main srt e argv s =
        (s\<lparr>cerr := cerr s @ ''warmup must be >= 0 and reps must be > 0\<newline>''\<rparr>, 2))
   \<and> (parse_loop argv default_args = Parsed a \<and> dataset a \<noteq> [] \<and> 0 \<le> warmup a \<and> 0 < reps a
        \<and> algo a \<noteq> ''builtin'' \<longrightarrow>
      main srt e argv s =
        (s\<lparr>cerr := cerr s @ ''only --algo builtin is supported right now\<newline>''\<rparr>, 2))"
proof -
  have loop: "parse_loop argv default_args = Exit2 m \<longrightarrow>
      main srt e argv s = (s\<lparr>cerr := cerr s @ m\<rparr>, 2) \<and> suffix usage_text m"
  proof
    assume l: "parse_loop argv default_args = Exit2 m"
    then have "parse_args argv = Exit2 m" by (simp add: parse_args_def)
    with l show "main srt e argv s = (s\<lparr>cerr := cerr s @ m\<rparr>, 2) \<and> suffix usage_text m"
      by (simp add: main_exit2 parse_loop_exit_usage)
  qed
  have unknown:
    "arg \<notin> {''--dataset'', ''--algo'', ''--warmup'', ''--reps'', ''--out'', ''--no-validate''} \<longrightarrow>
      parse_loop (arg # rest) a0 = Exit2 (''Unknown arg: '' @ arg @ ''\<newline>'' @ usage_text)"
    by simp
  have novalue: "arg \<in> {''--dataset'', ''--algo'', ''--warmup'', ''--reps'', ''--out''} \<longrightarrow>
      parse_loop [arg] a0 = Exit2 usage_text"
    by auto
  have nodata: "parse_loop argv default_args = Parsed a \<and> dataset a = [] \<longrightarrow>
      main srt e argv s = (s\<lparr>cerr := cerr s @ ''--dataset is required\<newline>'' @ usage_text\<rparr>, 2)"
  proof
    assume "parse_loop argv default_args = Parsed a \<and> dataset a = []"
    then have "parse_args argv = Exit2 (''--dataset is required\<newline>'' @ usage_text)"
      by (simp add: parse_args_def)
    then show "main srt e argv s =
        (s\<lparr>cerr := cerr s @ ''--dataset is required\<newline>'' @ usage_text\<rparr>, 2)"
      by (rule main_exit2)
  qed
  have range: "parse_loop argv default_args = Parsed a \<and> dataset a \<noteq> []
        \<and> (warmup a < 0 \<or> reps a \<le> 0) \<longrightarrow>
      main srt e argv s =
        (s\<lparr>cerr := cerr s @ ''warmup must be >= 0 and reps must be > 0\<newline>''\<rparr>, 2)"
  proof
    assume "parse_loop argv default_args = Parsed a \<and> dataset a \<noteq> []
        \<and> (warmup a < 0 \<or> reps a \<le> 0)"
    then have "parse_args argv = Exit2 ''warmup must be >= 0 and reps must be > 0\<newline>''"
      by (simp add: parse_args_def)
    then show "main srt e argv s =
        (s\<lparr>cerr := cerr s @ ''warmup must be >= 0 and reps must be > 0\<newline>''\<rparr>, 2)"
      by (rule main_exit2)
  qed
  have algo: "parse_loop argv default_args = Parsed a \<and> dataset a \<noteq> [] \<and> 0 \<le> warmup a
        \<and> 0 < reps a \<and> algo a \<noteq> ''builtin'' \<longrightarrow>
      main srt e argv s =
        (s\<lparr>cerr := cerr s @ ''only --algo builtin is supported right now\<newline>''\<rparr>, 2)"
  proof
    assume "parse_loop argv default_args = Parsed a \<and> dataset a \<noteq> [] \<and> 0 \<le> warmup a
        \<and> 0 < reps a \<and> algo a \<noteq> ''builtin''"
    then have "parse_args argv = Exit2 ''only --algo builtin is supported right now\<newline>''"
      by (simp add: parse_args_def)
    then show "main srt e argv s =
        (s\<lparr>cerr := cerr s @ ''only --algo builtin is supported right now\<newline>''\<rparr>, 2)"
      by (rule main_exit2)
  qed
  show ?thesis
    by (rule conjI, rule loop, rule conjI, rule unknown, rule conjI, rule novalue,
        rule conjI, rule nodata, rule conjI, rule range, rule algo)
qed

lemma stoi_7: "stoi ''-7'' = Inr (- 7)"
  by (simp add: stoi_def isspace_def isdigit_def)

theorem config_error_exit_witness:
  "main std_sort example_env [''--dataset'', ''d.bin'', ''--bogus''] (initial_state Map.empty {})
     = ((initial_state Map.empty {})\<lparr>cerr := ''Unknown arg: --bogus\<newline>'' @ usage_text\<rparr>, 2)
   \<and> main std_sort example_env [''--out'', ''o.csv''] (initial_state Map.empty {})
     = ((initial_state Map.empty {})\<lparr>cerr := ''--dataset is required\<newline>'' @ usage_text\<rparr>, 2)
   \<and> main std_sort example_env [''--dataset'', ''d.bin'', ''--warmup'', ''-7'']
        (initial_state Map.empty {})
     = ((initial_state Map.empty {})\<lparr>cerr := ''warmup must be >= 0 and reps must be > 0\<newline>''\<rparr>, 2)
   \<and> main std_sort example_env [''--dataset'', ''d.bin'', ''--algo'', ''quick'']
        (initial_state Map.empty {})
     = ((initial_state Map.empty {})\<lparr>cerr := ''only --algo builtin is supported right now\<newline>''\<rparr>, 2)"
proof -
  let ?s = "initial_state Map.empty {}"
  have c: "cerr ?s = []" by (simp add: initial_state_def)
  have 1: "parse_loop [''--dataset'', ''d.bin'', ''--bogus''] default_args
             = Exit2 (''Unknown arg: --bogus\<newline>'' @ usage_text)"
    by simp
  have 2: "parse_loop [''--out'', ''o.csv''] default_args = Parsed (default_args\<lparr>out := ''o.csv''\<rparr>)
           \<and> dataset (default_args\<lparr>out := ''o.csv''\<rparr>) = []"
    by (simp add: default_args_def)
  have 3: "parse_loop [''--dataset'', ''d.bin'', ''--warmup'', ''-7''] default_args
             = Parsed (default_args\<lparr>dataset := ''d.bin'', warmup := - 7\<rparr>)
           \<and> dataset (default_args\<lparr>dataset := ''d.bin'', warmup := - 7\<rparr>) \<noteq> []
           \<and> (warmup (default_args\<lparr>dataset := ''d.bin'', warmup := - 7\<rparr>) < 0
                \<or> reps (default_args\<lparr>dataset := ''d.bin'', warmup := - 7\<rparr>) \<le> 0)"
    by (simp add: stoi_7)
  have 4: "parse_loop [''--dataset'', ''d.bin'', ''--algo'', ''quick''] default_args
             = Parsed (default_args\<lparr>dataset := ''d.bin'', algo := ''quick''\<rparr>)
           \<and> dataset (default_args\<lparr>dataset := ''d.bin'', algo := ''quick''\<rparr>) \<noteq> []
           \<and> 0 \<le> warmup (default_args\<lparr>dataset := ''d.bin'', algo := ''quick''\<rparr>)
           \<and> 0 < reps (default_args\<lparr>dataset := ''d.bin'', algo := ''quick''\<rparr>)
           \<and> algo (default_args\<lparr>dataset := ''d.bin'', algo := ''quick''\<rparr>) \<noteq> ''builtin''"
    by (simp add: default_args_def)
  have "main std_sort example_env [''--dataset'', ''d.bin'', ''--bogus''] ?s
     = (?s\<lparr>cerr := cerr ?s @ ''Unknown arg: --bogus\<newline>'' @ usage_text\<rparr>, 2)"
    by (rule config_error_exit [where argv = "[''--dataset'', ''d.bin'', ''--bogus'']"
          and m = "''Unknown arg: --bogus\<newline>'' @ usage_text",
          THEN conjunct1, THEN mp, OF 1, THEN conjunct1])
  moreover
  have "main std_sort example_env [''--out'', ''o.csv''] ?s
     = (?s\<lparr>cerr := cerr ?s @ ''--dataset is required\<newline>'' @ usage_text\<rparr>, 2)"
    by (rule config_error_exit [where argv = "[''--out'', ''o.csv'']"
          and a = "default_args\<lparr>out := ''o.csv''\<rparr>",
          THEN conjunct2, THEN conjunct2, THEN conjunct2, THEN conjunct1, THEN mp, OF 2])
  moreover
  have "main std_sort example_env [''--dataset'', ''d.bin'', ''--warmup'', ''-7''] ?s
     = (?s\<lparr>cerr := cerr ?s @ ''warmup must be >= 0 and reps must be > 0\<newline>''\<rparr>, 2)"
    by (rule config_error_exit [where argv = "[''--dataset'', ''d.bin'', ''--warmup'', ''-7'']"
          and a = "default_args\<lparr>dataset := ''d.bin'', warmup := - 7\<rparr>",
          THEN conjunct2, THEN conjunct2, THEN conjunct2, THEN conjunct2, THEN conjunct1,
          THEN mp, OF 3])
  moreover
  have "main std_sort example_env [''--dataset'', ''d.bin'', ''--algo'', ''quick''] ?s
     = (?s\<lparr>cerr := cerr ?s @ ''only --algo builtin is supported right now\<newline>''\<rparr>, 2)"
    by (rule config_error_exit [where argv = "[''--dataset'', ''d.bin'', ''--algo'', ''quick'']"
          and a = "default_args\<lparr>dataset := ''d.bin'', algo := ''quick''\<rparr>",
          THEN conjunct2, THEN conjunct2, THEN conjunct2, THEN conjunct2, THEN conjunct2,
          THEN mp, OF 4])
  ultimately show ?thesis by (simp add: c)
qed

text \<open>
  Claim C6 as the specification words it fails on an unsupported algorithm: the exit
  status is 2, but the error stream holds the one-line message only, and the usage text
  is no part of it.
\<close>

theorem config_error_usage_counterexample:
  "\<not> (snd (main std_sort example_env [''--dataset'', ''d.bin'', ''--algo'', ''quick'']
              (initial_state Map.empty {})) = 2
      \<and> sublist usage_text
           (cerr (fst (main std_sort example_env [''--dataset'', ''d.bin'', ''--algo'', ''quick'']
                         (initial_state Map.empty {})))))"
proof -
  have "parse_args [''--dataset'', ''d.bin'', ''--algo'', ''quick'']
          = Exit2 ''only --algo builtin is supported right now\<newline>''"
    by (simp add: parse_args_def default_args_def)
  then have "cerr (fst (main std_sort example_env [''--dataset'', ''d.bin'', ''--algo'', ''quick'']
                         (initial_state Map.empty {})))
             = ''only --algo builtin is supported right now\<newline>''"
    by (simp add: main_def initial_state_def)
  moreover have "\<not> sublist usage_text ''only --algo builtin is supported right now\<newline>''"
  proof
    assume "sublist usage_text ''only --algo builtin is supported right now\<newline>''"
    then have "length usage_text \<le> length ''only --algo builtin is supported right now\<newline>''"
      by (rule sublist_length_le)
    then show False by (simp add: usage_text_def)
  qed
  ultimately show ?thesis by simp
qed

text \<open>
  A numeric flag whose value \<open>std::stoi\<close> rejects does not reach the checks of
  \<open>parse_args\<close>: the exception is caught by the handler of \<open>main\<close>, and the exit status
  is 1.
\<close>

lemma main_invalid_number:
  "main std_sort example_env [''--dataset'', ''d.bin'', ''--reps'', ''many'']
     (initial_state Map.empty {})
   = ((initial_state Map.empty {})\<lparr>cerr := ''Error: stoi\<newline>''\<rparr>, 1)"
proof -
  have "stoi ''many'' = Inl (InvalidArgument ''stoi'')"
    by (simp add: stoi_def isspace_def isdigit_def)
  then have "parse_args [''--dataset'', ''d.bin'', ''--reps'', ''many''] = Threw (InvalidArgument ''stoi'')"
    by (simp add: parse_args_def)
  then show ?thesis by (simp add: main_def catch_exn_def initial_state_def)
qed

subsection \<open>The loops and the whole run\<close>

lemma is_sorted_from_iff:
  "is_sorted_from a i \<longleftrightarrow> (\<forall>j. i \<le> j \<and> j + 1 < length a \<longrightarrow> sint (a ! j) \<le> sint (a ! (j + 1)))"
proof (induction a i rule: is_sorted_from.induct)
  case (1 a i)
  show ?case
  proof (cases "i + 1 < length a")
    case False
    then show ?thesis by (subst is_sorted_from.simps) auto
  next
    case True
    show ?thesis
    proof (cases "sint (a ! i) > sint (a ! (i + 1))")
      case gt: True
      with True have "\<not> is_sorted_from a i" by (subst is_sorted_from.simps) simp
      moreover from gt True
      have "\<not> (\<forall>j. i \<le> j \<and> j + 1 < length a \<longrightarrow> sint (a ! j) \<le> sint (a ! (j + 1)))"
        by (auto intro!: exI [of _ i])
      ultimately show ?thesis by blast
    next
      case le: False
      with True have "is_sorted_from a i = is_sorted_from a (i + 1)"
        by (subst is_sorted_from.simps) simp
      also from "1.IH" True le have "\<dots> \<longleftrightarrow>
        (\<forall>j. i + 1 \<le> j \<and> j + 1 < length a \<longrightarrow> sint (a ! j) \<le> sint (a ! (j + 1)))"
        by simp
      also have "\<dots> \<longleftrightarrow>
        (\<forall>j. i \<le> j \<and> j + 1 < length a \<longrightarrow> sint (a ! j) \<le> sint (a ! (j + 1)))"
      proof
        assume r: "\<forall>j. i + 1 \<le> j \<and> j + 1 < length a \<longrightarrow> sint (a ! j) \<le> sint (a ! (j + 1))"
        show "\<forall>j. i \<le> j \<and> j + 1 < length a \<longrightarrow> sint (a ! j) \<le> sint (a ! (j + 1))"
        proof (intro allI impI)
          fix j assume j: "i \<le> j \<and> j + 1 < length a"
          show "sint (a ! j) \<le> sint (a ! (j + 1))"
          proof (cases "j = i")
            case True
            with le show ?thesis by simp
          next
            case False
            with j have "i + 1 \<le> j \<and> j + 1 < length a" by simp
            with r show ?thesis by blast
          qed
        qed
      next
        assume "\<forall>j. i \<le> j \<and> j + 1 < length a \<longrightarrow> sint (a ! j) \<le> sint (a ! (j + 1))"
        then show "\<forall>j. i + 1 \<le> j \<and> j + 1 < length a \<longrightarrow> sint (a ! j) \<le> sint (a ! (j + 1))"
          by simp
      qed
      finally show ?thesis .
    qed
  qed
qed

lemma is_sorted_non_decreasing_iff:
  "is_sorted_non_decreasing a \<longleftrightarrow> (\<forall>i. i + 1 < length a \<longrightarrow> sint (a ! i) \<le> sint (a ! (i + 1)))"
  by (simp add: is_sorted_non_decreasing_def is_sorted_from_iff)

text \<open>The sort of the standard library always passes the check.\<close>

lemma std_sort_validates: "is_sorted_non_decreasing (std_sort a)"
proof -
  have s: "sorted (map sint (std_sort a))"
    by (simp add: std_sort_def)
  have "sint (std_sort a ! i) \<le> sint (std_sort a ! (i + 1))" if "i + 1 < length (std_sort a)" for i
  proof -
    from that have "map sint (std_sort a) ! i \<le> map sint (std_sort a) ! (i + 1)"
      by (intro sorted_nth_mono [OF s]) simp_all
    with that show ?thesis by simp
  qed
  then show ?thesis by (simp add: is_sorted_non_decreasing_iff)
qed

lemma std_sort_length: "length (std_sort a) = length a"
  by (simp add: std_sort_def)

lemma sort_tmp_fields [simp]:
  "files (sort_tmp srt s) = files s"
  "unwritable (sort_tmp srt s) = unwritable s"
  "mkdir_error (sort_tmp srt s) = mkdir_error s"
  "cout (sort_tmp srt s) = cout s"
  "cerr (sort_tmp srt s) = cerr s"
  "values_vec (sort_tmp srt s) = values_vec s"
  "tmp (sort_tmp srt s) = srt (tmp s)"
  "sort_calls (sort_tmp srt s) = sort_calls s @ [tmp s]"
  by (simp_all add: sort_tmp_def)

lemma warmup_iter_fields [simp]:
  "files (warmup_iter srt s) = files s"
  "unwritable (warmup_iter srt s) = unwritable s"
  "mkdir_error (warmup_iter srt s) = mkdir_error s"
  "cout (warmup_iter srt s) = cout s"
  "cerr (warmup_iter srt s) = cerr s"
  "values_vec (warmup_iter srt s) = values_vec s"
  "tmp (warmup_iter srt s) = srt (values_vec s)"
  "sort_calls (warmup_iter srt s) = sort_calls s @ [values_vec s]"
  by (simp_all add: warmup_iter_def)

lemma warmup_loop_fields:
  "files (warmup_loop srt a i s) = files s
   \<and> unwritable (warmup_loop srt a i s) = unwritable s
   \<and> mkdir_error (warmup_loop srt a i s) = mkdir_error s
   \<and> cout (warmup_loop srt a i s) = cout s
   \<and> cerr (warmup_loop srt a i s) = cerr s
   \<and> values_vec (warmup_loop srt a i s) = values_vec s
   \<and> sort_calls (warmup_loop srt a i s) =
       sort_calls s @ replicate (nat (warmup a) - i) (values_vec s)"
proof (induction srt a i s rule: warmup_loop.induct)
  case (1 srt a i s)
  show ?case
  proof (cases "int i < warmup a")
    case False
    then have "nat (warmup a) - i = 0" by simp
    with False show ?thesis by (subst (1 2 3 4 5 6 7) warmup_loop.simps) simp
  next
    case True
    then have k: "nat (warmup a) - i = Suc (nat (warmup a) - (i + 1))" by linarith
    have eq: "warmup_loop srt a i s = warmup_loop srt a (i + 1) (warmup_iter srt s)"
      using True by (subst warmup_loop.simps) simp
    from "1.IH" [OF True] show ?thesis
      unfolding eq k by (simp add: replicate_append_same)
  qed
qed

lemma can_append_cong:
  "unwritable s' = unwritable s \<Longrightarrow> mkdir_error s' = mkdir_error s \<Longrightarrow>
     can_append p s' = can_append p s"
  by (simp add: can_append_def)


lemma append_row_fail:
  assumes "\<not> can_append csv_path s"
  shows "append_row csv_path row s =
           Inl (if CHR ''/'' \<in> set csv_path \<and> mkdir_error s csv_path \<noteq> None
                then FilesystemError (the (mkdir_error s csv_path))
                else RuntimeError (''Failed to open output CSV: '' @ csv_path))"
  using assms
  by (auto simp: can_append_def append_row_def ensure_parent_dir_def split: option.splits)

lemma measured_iter_ok:
  assumes "can_append (out a) s"
  shows "\<exists>s'. measured_iter srt e a n dist rep s = (s', None)
     \<and> cout s' = cout s @ row_line srt e a n dist (values_vec s) rep
     \<and> files s' (out a) =
         Some ((case files s (out a) of None \<Rightarrow> header_line | Some c \<Rightarrow> c)
               @ row_line srt e a n dist (values_vec s) rep)
     \<and> (\<forall>q. q \<noteq> out a \<longrightarrow> files s' q = files s q)
     \<and> cerr s' = cerr s \<and> unwritable s' = unwritable s \<and> mkdir_error s' = mkdir_error s
     \<and> values_vec s' = values_vec s \<and> sort_calls s' = sort_calls s @ [values_vec s]"
proof -
  define s1 where "s1 = sort_tmp srt (s\<lparr>tmp := values_vec s\<rparr>)"
  define ok where "ok = (if validate a then is_sorted_non_decreasing (tmp s1) else True)"
  define row where "row = make_row e a n dist rep ok"
  define s2 where "s2 = s1\<lparr>cout := cout s1 @ comma_join row @ ''\<newline>''\<rparr>"
  have it: "measured_iter srt e a n dist rep s =
          (case append_row (out a) row s2 of Inl x \<Rightarrow> (s2, Some x) | Inr s3 \<Rightarrow> (s3, None))"
    unfolding measured_iter_def Let_def s2_def row_def ok_def s1_def ..
  have "tmp s1 = srt (values_vec s)" by (simp add: s1_def)
  then have line: "comma_join row @ ''\<newline>'' = row_line srt e a n dist (values_vec s) rep"
    by (simp add: row_line_def row_def ok_def)
  have f2: "files s2 = files s" "unwritable s2 = unwritable s" "mkdir_error s2 = mkdir_error s"
    "cerr s2 = cerr s" "values_vec s2 = values_vec s"
    "sort_calls s2 = sort_calls s @ [values_vec s]"
    "cout s2 = cout s @ comma_join row @ ''\<newline>''"
    by (simp_all add: s2_def s1_def)
  from assms f2 have w: "out a \<notin> unwritable s2"
    "CHR ''/'' \<in> set (out a) \<longrightarrow> mkdir_error s2 (out a) = None"
    by (simp_all add: can_append_def)
  show ?thesis
  proof (cases "files s (out a)")
    case None
    with f2 have "files s2 (out a) = None" by simp
    from append_row_absent [OF w this, of row] it None f2 line
    show ?thesis by simp
  next
    case (Some c)
    with f2 have "files s2 (out a) = Some c" by simp
    from append_row_existing [OF w this, of row] it Some f2 line
    show ?thesis by simp
  qed
qed

lemma measured_iter_fail:
  assumes "\<not> can_append (out a) s"
  shows "\<exists>s'. measured_iter srt e a n dist rep s =
            (s', Some (if CHR ''/'' \<in> set (out a) \<and> mkdir_error s (out a) \<noteq> None
                       then FilesystemError (the (mkdir_error s (out a)))
                       else RuntimeError (''Failed to open output CSV: '' @ out a)))
     \<and> cout s' = cout s @ row_line srt e a n dist (values_vec s) rep
     \<and> files s' = files s
     \<and> cerr s' = cerr s \<and> unwritable s' = unwritable s \<and> mkdir_error s' = mkdir_error s
     \<and> values_vec s' = values_vec s \<and> sort_calls s' = sort_calls s @ [values_vec s]"
proof -
  define s1 where "s1 = sort_tmp srt (s\<lparr>tmp := values_vec s\<rparr>)"
  define ok where "ok = (if validate a then is_sorted_non_decreasing (tmp s1) else True)"
  define row where "row = make_row e a n dist rep ok"
  define s2 where "s2 = s1\<lparr>cout := cout s1 @ comma_join row @ ''\<newline>''\<rparr>"
  have it: "measured_iter srt e a n dist rep s =
          (case append_row (out a) row s2 of Inl x \<Rightarrow> (s2, Some x) | Inr s3 \<Rightarrow> (s3, None))"
    unfolding measured_iter_def Let_def s2_def row_def ok_def s1_def ..
  have "tmp s1 = srt (values_vec s)" by (simp add: s1_def)
  then have line: "comma_join row @ ''\<newline>'' = row_line srt e a n dist (values_vec s) rep"
    by (simp add: row_line_def row_def ok_def)
  have f2: "files s2 = files s" "unwritable s2 = unwritable s" "mkdir_error s2 = mkdir_error s"
    "cerr s2 = cerr s" "values_vec s2 = values_vec s"
    "sort_calls s2 = sort_calls s @ [values_vec s]"
    "cout s2 = cout s @ comma_join row @ ''\<newline>''"
    by (simp_all add: s2_def s1_def)
  from assms f2 have "\<not> can_append (out a) s2" by (simp add: can_append_def)
  from append_row_fail [OF this, of row] it f2 line show ?thesis by simp
qed


lemma measured_loop_ok:
  assumes "can_append (out a) s"
  shows "\<exists>s'. measured_loop srt e a n dist rep s = (s', None)
     \<and> cout s' = cout s @ concat (map (row_line srt e a n dist (values_vec s)) [rep..<nat (reps a)])
     \<and> (rep < nat (reps a) \<longrightarrow>
          files s' (out a) =
            Some ((case files s (out a) of None \<Rightarrow> header_line | Some c \<Rightarrow> c)
                  @ concat (map (row_line srt e a n dist (values_vec s)) [rep..<nat (reps a)])))
     \<and> (\<not> rep < nat (reps a) \<longrightarrow> files s' = files s)
     \<and> (\<forall>q. q \<noteq> out a \<longrightarrow> files s' q = files s q)
     \<and> cerr s' = cerr s \<and> unwritable s' = unwritable s \<and> mkdir_error s' = mkdir_error s
     \<and> values_vec s' = values_vec s
     \<and> sort_calls s' = sort_calls s @ replicate (nat (reps a) - rep) (values_vec s)"
  using assms
proof (induction "nat (reps a) - rep" arbitrary: rep s)
  case 0
  then have stop: "\<not> int rep < reps a" by linarith
  then have "measured_loop srt e a n dist rep s = (s, None)"
    by (subst measured_loop.simps) simp
  moreover from stop have "[rep..<nat (reps a)] = []" "\<not> rep < nat (reps a)" by simp_all
  ultimately show ?case using 0(1) by simp
next
  case (Suc k)
  then have go: "int rep < reps a" and lt: "rep < nat (reps a)"
    and k: "k = nat (reps a) - (rep + 1)" by linarith+
  let ?line = "row_line srt e a n dist (values_vec s)"
  from measured_iter_ok [OF Suc.prems, of srt e n dist rep]
  obtain s1 where it: "measured_iter srt e a n dist rep s = (s1, None)"
    and c1: "cout s1 = cout s @ ?line rep"
    and f1: "files s1 (out a) =
         Some ((case files s (out a) of None \<Rightarrow> header_line | Some c \<Rightarrow> c) @ ?line rep)"
    and o1: "\<forall>q. q \<noteq> out a \<longrightarrow> files s1 q = files s q"
    and r1: "cerr s1 = cerr s" "unwritable s1 = unwritable s" "mkdir_error s1 = mkdir_error s"
    and v1: "values_vec s1 = values_vec s"
    and sc1: "sort_calls s1 = sort_calls s @ [values_vec s]"
    by blast
  from Suc.prems r1 have ca: "can_append (out a) s1" by (simp add: can_append_def)
  from Suc.hyps(1) [OF k ca]
  obtain s' where lp: "measured_loop srt e a n dist (rep + 1) s1 = (s', None)"
    and c': "cout s' = cout s1 @ concat (map (row_line srt e a n dist (values_vec s1)) [rep + 1..<nat (reps a)])"
    and f'a: "rep + 1 < nat (reps a) \<longrightarrow>
          files s' (out a) =
            Some ((case files s1 (out a) of None \<Rightarrow> header_line | Some c \<Rightarrow> c)
                  @ concat (map (row_line srt e a n dist (values_vec s1)) [rep + 1..<nat (reps a)]))"
    and f'b: "\<not> rep + 1 < nat (reps a) \<longrightarrow> files s' = files s1"
    and o': "\<forall>q. q \<noteq> out a \<longrightarrow> files s' q = files s1 q"
    and r': "cerr s' = cerr s1" "unwritable s' = unwritable s1" "mkdir_error s' = mkdir_error s1"
    and v': "values_vec s' = values_vec s1"
    and sc': "sort_calls s' = sort_calls s1 @ replicate (nat (reps a) - (rep + 1)) (values_vec s1)"
    by blast
  have loop: "measured_loop srt e a n dist rep s = (s', None)"
    using go it lp by (subst measured_loop.simps) simp
  have upt: "[rep..<nat (reps a)] = rep # [rep + 1..<nat (reps a)]"
    using lt by (simp add: upt_conv_Cons)
  have cout: "cout s' = cout s @ concat (map ?line [rep..<nat (reps a)])"
    using c' c1 v1 upt by simp
  have logf: "files s' (out a) =
            Some ((case files s (out a) of None \<Rightarrow> header_line | Some c \<Rightarrow> c)
                  @ concat (map ?line [rep..<nat (reps a)]))"
  proof (cases "rep + 1 < nat (reps a)")
    case True
    with f'a f1 v1 upt show ?thesis by simp
  next
    case False
    then have "[rep + 1..<nat (reps a)] = []" by simp
    with False f'b f1 upt show ?thesis by simp
  qed
  have calls: "sort_calls s' = sort_calls s @ replicate (nat (reps a) - rep) (values_vec s)"
  proof -
    from lt have "nat (reps a) - rep = Suc (nat (reps a) - (rep + 1))" by simp
    with sc' sc1 v1 show ?thesis by (simp add: replicate_append_same)
  qed
  from loop cout logf lt o' o1 r' r1 v' v1 calls show ?case by simp
qed

lemma measured_loop_fail:
  assumes "\<not> can_append (out a) s" and "int rep < reps a"
  shows "\<exists>s'. measured_loop srt e a n dist rep s =
            (s', Some (if CHR ''/'' \<in> set (out a) \<and> mkdir_error s (out a) \<noteq> None
                       then FilesystemError (the (mkdir_error s (out a)))
                       else RuntimeError (''Failed to open output CSV: '' @ out a)))
     \<and> cout s' = cout s @ row_line srt e a n dist (values_vec s) rep
     \<and> files s' = files s
     \<and> cerr s' = cerr s \<and> unwritable s' = unwritable s \<and> mkdir_error s' = mkdir_error s
     \<and> values_vec s' = values_vec s \<and> sort_calls s' = sort_calls s @ [values_vec s]"
proof -
  from measured_iter_fail [OF assms(1), of srt e n dist rep]
  obtain s' where it: "measured_iter srt e a n dist rep s =
            (s', Some (if CHR ''/'' \<in> set (out a) \<and> mkdir_error s (out a) \<noteq> None
                       then FilesystemError (the (mkdir_error s (out a)))
                       else RuntimeError (''Failed to open output CSV: '' @ out a)))"
    and rest: "cout s' = cout s @ row_line srt e a n dist (values_vec s) rep"
      "files s' = files s" "cerr s' = cerr s" "unwritable s' = unwritable s"
      "mkdir_error s' = mkdir_error s" "values_vec s' = values_vec s"
      "sort_calls s' = sort_calls s @ [values_vec s]"
    by blast
  from assms(2) it have "measured_loop srt e a n dist rep s =
            (s', Some (if CHR ''/'' \<in> set (out a) \<and> mkdir_error s (out a) \<noteq> None
                       then FilesystemError (the (mkdir_error s (out a)))
                       else RuntimeError (''Failed to open output CSV: '' @ out a)))"
    by (subst measured_loop.simps) simp
  with rest show ?thesis by blast
qed

lemma parse_args_Parsed:
  "parse_args argv = Parsed a \<Longrightarrow>
     dataset a \<noteq> [] \<and> 0 \<le> warmup a \<and> 0 < reps a \<and> algo a = ''builtin''"
  by (auto simp: parse_args_def split: parsed.splits if_splits)


lemma main_run_ok:
  assumes p: "parse_args argv = Parsed a"
    and l: "read_bin_int32_le s (dataset a) = Inr vs"
    and w: "can_append (out a) s"
  shows "\<exists>s'. main srt e argv s = (s', 0)
     \<and> cout s' = cout s @ concat (map (row_line srt e a (sint (word_of_nat (length vs) :: 32 word))
                                         (infer_distribution (dataset a)) vs) [0..<nat (reps a)])
     \<and> files s' (out a) =
         Some ((case files s (out a) of None \<Rightarrow> header_line | Some c \<Rightarrow> c)
               @ concat (map (row_line srt e a (sint (word_of_nat (length vs) :: 32 word))
                                (infer_distribution (dataset a)) vs) [0..<nat (reps a)]))
     \<and> (\<forall>q. q \<noteq> out a \<longrightarrow> files s' q = files s q)
     \<and> cerr s' = cerr s \<and> values_vec s' = vs
     \<and> sort_calls s' = sort_calls s @ replicate (nat (warmup a) + nat (reps a)) vs"
proof -
  let ?n = "sint (word_of_nat (length vs) :: 32 word)"
  let ?dist = "infer_distribution (dataset a)"
  let ?s2 = "warmup_loop srt a 0 (s\<lparr>values_vec := vs\<rparr>)"
  from parse_args_Parsed [OF p] have pos: "0 < nat (reps a)" by simp
  from warmup_loop_fields [of srt a 0 "s\<lparr>values_vec := vs\<rparr>"]
  have f2: "files ?s2 = files s" "unwritable ?s2 = unwritable s" "mkdir_error ?s2 = mkdir_error s"
    "cout ?s2 = cout s" "cerr ?s2 = cerr s" "values_vec ?s2 = vs"
    "sort_calls ?s2 = sort_calls s @ replicate (nat (warmup a)) vs"
    by simp_all
  from w f2 have "can_append (out a) ?s2" by (simp add: can_append_def)
  from measured_loop_ok [OF this, of srt e ?n ?dist 0] pos f2
  obtain s' where lp: "measured_loop srt e a ?n ?dist 0 ?s2 = (s', None)"
    and r: "cout s' = cout s @ concat (map (row_line srt e a ?n ?dist vs) [0..<nat (reps a)])"
      "files s' (out a) =
         Some ((case files s (out a) of None \<Rightarrow> header_line | Some c \<Rightarrow> c)
               @ concat (map (row_line srt e a ?n ?dist vs) [0..<nat (reps a)]))"
      "\<forall>q. q \<noteq> out a \<longrightarrow> files s' q = files s q"
      "cerr s' = cerr s" "values_vec s' = vs"
      "sort_calls s' = (sort_calls s @ replicate (nat (warmup a)) vs) @ replicate (nat (reps a) - 0) vs"
    by auto
  from p l lp have "main srt e argv s = (s', 0)"
    by (simp add: main_def Let_def)
  with r show ?thesis by (simp add: replicate_add)
qed

lemma main_run_fail:
  assumes p: "parse_args argv = Parsed a"
    and l: "read_bin_int32_le s (dataset a) = Inr vs"
    and w: "\<not> can_append (out a) s"
  shows "\<exists>s'. main srt e argv s = (s', 1)
     \<and> cout s' = cout s @ row_line srt e a (sint (word_of_nat (length vs) :: 32 word))
                             (infer_distribution (dataset a)) vs 0
     \<and> files s' = files s
     \<and> cerr s' = cerr s @ ''Error: '' @
          what (if CHR ''/'' \<in> set (out a) \<and> mkdir_error s (out a) \<noteq> None
                then FilesystemError (the (mkdir_error s (out a)))
                else RuntimeError (''Failed to open output CSV: '' @ out a)) @ ''\<newline>''
     \<and> values_vec s' = vs
     \<and> sort_calls s' = sort_calls s @ replicate (nat (warmup a) + 1) vs"
proof -
  let ?n = "sint (word_of_nat (length vs) :: 32 word)"
  let ?dist = "infer_distribution (dataset a)"
  let ?s2 = "warmup_loop srt a 0 (s\<lparr>values_vec := vs\<rparr>)"
  define x where "x = (if CHR ''/'' \<in> set (out a) \<and> mkdir_error s (out a) \<noteq> None
                then FilesystemError (the (mkdir_error s (out a)))
                else RuntimeError (''Failed to open output CSV: '' @ out a))"
  from parse_args_Parsed [OF p] have pos: "int 0 < reps a" by simp
  from warmup_loop_fields [of srt a 0 "s\<lparr>values_vec := vs\<rparr>"]
  have f2: "files ?s2 = files s" "unwritable ?s2 = unwritable s" "mkdir_error ?s2 = mkdir_error s"
    "cout ?s2 = cout s" "cerr ?s2 = cerr s" "values_vec ?s2 = vs"
    "sort_calls ?s2 = sort_calls s @ replicate (nat (warmup a)) vs"
    by simp_all
  from w f2 have "\<not> can_append (out a) ?s2" by (simp add: can_append_def)
  note measured_loop_fail [OF this pos, of srt e ?n ?dist, unfolded f2, folded x_def]
  then obtain s3 where lp: "measured_loop srt e a ?n ?dist 0 ?s2 = (s3, Some x)"
    and r: "cout s3 = cout s @ row_line srt e a ?n ?dist vs 0"
      "files s3 = files s" "cerr s3 = cerr s" "values_vec s3 = vs"
      "sort_calls s3 = (sort_calls s @ replicate (nat (warmup a)) vs) @ [vs]"
    by blast
  from p l lp have "main srt e argv s = catch_exn x s3"
    by (simp add: main_def Let_def)
  with r have "\<exists>s'. main srt e argv s = (s', 1)
     \<and> cout s' = cout s @ row_line srt e a ?n ?dist vs 0
     \<and> files s' = files s
     \<and> cerr s' = cerr s @ ''Error: '' @ what x @ ''\<newline>''
     \<and> values_vec s' = vs
     \<and> sort_calls s' = sort_calls s @ replicate (nat (warmup a) + 1) vs"
    by (simp add: catch_exn_def replicate_append_same)
  then show ?thesis unfolding x_def .
qed

subsection \<open>An example run\<close>

lemma stoi_examples: "stoi ''1'' = Inr 1" "stoi ''2'' = Inr 2"
  by (simp_all add: stoi_def isspace_def isdigit_def)

lemma example_parse: "parse_args example_argv = Parsed example_args"
  by (simp add: parse_args_def example_argv_def example_args_def stoi_examples default_args_def)

lemma example_fields:
  "dataset example_args = ''d.bin''" "out example_args = ''o.csv''"
  "reps example_args = 2" "warmup example_args = 1" "validate example_args"
  "algo example_args = ''builtin''"
  by (simp_all add: example_args_def default_args_def)

lemma le32_examples:
  "le32 [CHR 0x02, CHR 0x00, CHR 0x00, CHR 0x00] = 2"
  "le32 [CHR 0x05, CHR 0x00, CHR 0x00, CHR 0x00] = 5"
  "le32 [CHR 0xFF, CHR 0xFF, CHR 0xFF, CHR 0xFF] = - 1"
  by (simp_all add: le32_def)

lemma example_load:
  "read_bin_int32_le example_state (dataset example_args) = Inr [5, - 1]"
  "read_bin_int32_le example_state_ro (dataset example_args) = Inr [5, - 1]"
proof -
  have n: "unat (le32 (take 4 dataset_two)) = 2"
    by (simp add: dataset_two_def le32_examples)
  have "decode_int32s (Suc (Suc 0)) (drop 4 dataset_two) = [5, - 1]"
    by (simp add: dataset_two_def le32_examples)
  then have d: "decode_int32s 2 (drop 4 dataset_two) = [5, - 1]"
    by (simp add: numeral_2_eq_2)
  have l: "length dataset_two = 12" by (simp add: dataset_two_def)
  show "read_bin_int32_le example_state (dataset example_args) = Inr [5, - 1]"
    by (simp add: read_bin_int32_le_def example_state_def initial_state_def example_fields
          Let_def n d l)
  show "read_bin_int32_le example_state_ro (dataset example_args) = Inr [5, - 1]"
    by (simp add: read_bin_int32_le_def example_state_ro_def initial_state_def example_fields
          Let_def n d l)
qed

lemma example_can_append:
  "can_append (out example_args) example_state"
  "\<not> can_append (out example_args) example_state_ro"
  by (simp_all add: can_append_def example_state_def example_state_ro_def initial_state_def
        example_fields)

lemma example_reps: "[0..<2] = [0, 1 :: nat]"
  by (simp add: upt_rec)

lemma example_dist: "infer_distribution ''d.bin'' = ''unknown''"
  by (simp add: infer_distribution_def filename_def)

lemma example_unsorted: "\<not> is_sorted_non_decreasing (id [5, - 1 :: int32])"
  by (simp add: is_sorted_non_decreasing_def is_sorted_from.simps)


lemma measured_iter_cout:
  "cout (fst (measured_iter srt e a n dist rep t)) =
     cout t @ row_line srt e a n dist (values_vec t) rep"
proof (cases "can_append (out a) t")
  case True
  from measured_iter_ok [OF True, of srt e n dist rep] show ?thesis by auto
next
  case False
  from measured_iter_fail [OF False, of srt e n dist rep] show ?thesis by auto
qed

lemma measured_iter_vectors:
  "values_vec (fst (measured_iter srt e a n dist rep t)) = values_vec t
   \<and> sort_calls (fst (measured_iter srt e a n dist rep t)) = sort_calls t @ [values_vec t]"
proof (cases "can_append (out a) t")
  case True
  from measured_iter_ok [OF True, of srt e n dist rep] show ?thesis by auto
next
  case False
  from measured_iter_fail [OF False, of srt e n dist rep] show ?thesis by auto
qed

lemma example_sorted: "is_sorted_non_decreasing (std_sort [5, - 1 :: int32])"
  by (simp add: std_sort_def is_sorted_non_decreasing_def is_sorted_from.simps)

lemma example_lines:
  "row_line id example_env example_args 2 ''unknown'' [5, - 1] 0
     = ''2024-05-01T12:00:00,sort,cpp,c++20,builtin,d.bin,unknown,2,1,0,0.188,false\<newline>''"
  "row_line id example_env example_args 2 ''unknown'' [5, - 1] 1
     = ''2024-05-01T12:00:00,sort,cpp,c++20,builtin,d.bin,unknown,2,1,1,0.188,false\<newline>''"
  "row_line std_sort example_env example_args 2 ''unknown'' [5, - 1] 0
     = ''2024-05-01T12:00:00,sort,cpp,c++20,builtin,d.bin,unknown,2,1,0,0.188,true\<newline>''"
  using example_unsorted example_sorted
  by (simp_all add: row_line_def make_row_def example_fields example_env_def example_numbers)

lemma example_line_1:
  "row_line std_sort example_env example_args 2 ''unknown'' [5, - 1] 1
     = ''2024-05-01T12:00:00,sort,cpp,c++20,builtin,d.bin,unknown,2,1,1,0.188,true\<newline>''"
  using example_sorted
  by (simp add: row_line_def make_row_def example_fields example_env_def example_numbers)

subsection \<open>Repetitions and warmups\<close>

text \<open>
  Claim C1.  Let the arguments parse to a configuration, the dataset load, and the log be
  one that can be appended to.  Then the repetition count \<open>R\<close> is positive, the run ends
  with status 0, and what it printed, and what it added to the log, is the line of
  repetition 0, then of repetition 1, and so on up to \<open>R - 1\<close>, each once: exactly \<open>R\<close>
  lines.  The line of repetition \<open>rep\<close> is a row whose field \<open>rep_idx\<close> (index 9) is the
  decimal numeral of \<open>rep\<close>, so the rows of two different repetitions differ in it.
  The warmup loop prints nothing and changes no file, whatever the warmup count, so no
  line comes from a warmup repetition.
\<close>

theorem runner_emits_reps:
  assumes "parse_args argv = Parsed a"
    and "read_bin_int32_le s (dataset a) = Inr vs"
    and "can_append (out a) s"
  shows "0 < reps a \<and> 0 \<le> warmup a
     \<and> (\<exists>s'. main srt e argv s = (s', 0)
          \<and> cout s' = cout s @ concat (map (row_line srt e a (sint (word_of_nat (length vs) :: 32 word))
                                              (infer_distribution (dataset a)) vs) [0..<nat (reps a)])
          \<and> files s' (out a) =
              Some ((case files s (out a) of None \<Rightarrow> header_line | Some c \<Rightarrow> c)
                    @ concat (map (row_line srt e a (sint (word_of_nat (length vs) :: 32 word))
                                     (infer_distribution (dataset a)) vs) [0..<nat (reps a)])))
     \<and> (\<forall>rep. \<exists>ok. row_line srt e a n dist vs rep = comma_join (make_row e a n dist rep ok) @ ''\<newline>''
              \<and> make_row e a n dist rep ok ! 9 = to_string (int rep))
     \<and> (\<forall>rep ok. decimal_numeral (make_row e a n dist rep ok ! 9) rep)
     \<and> (\<forall>i j ok ok'. make_row e a n dist i ok ! 9 = make_row e a n dist j ok' ! 9 \<longrightarrow> i = j)
     \<and> (\<forall>t. cout (warmup_loop srt a 0 t) = cout t \<and> files (warmup_loop srt a 0 t) = files t)"
proof -
  have pos: "0 < reps a \<and> 0 \<le> warmup a"
    using parse_args_Parsed [OF assms(1)] by simp
  have run: "\<exists>s'. main srt e argv s = (s', 0)
          \<and> cout s' = cout s @ concat (map (row_line srt e a (sint (word_of_nat (length vs) :: 32 word))
                                              (infer_distribution (dataset a)) vs) [0..<nat (reps a)])
          \<and> files s' (out a) =
              Some ((case files s (out a) of None \<Rightarrow> header_line | Some c \<Rightarrow> c)
                    @ concat (map (row_line srt e a (sint (word_of_nat (length vs) :: 32 word))
                                     (infer_distribution (dataset a)) vs) [0..<nat (reps a)]))"
    using main_run_ok [OF assms, of srt e] by blast
  have line: "\<forall>rep. \<exists>ok. row_line srt e a n dist vs rep = comma_join (make_row e a n dist rep ok) @ ''\<newline>''
              \<and> make_row e a n dist rep ok ! 9 = to_string (int rep)"
    by (auto simp: row_line_def make_row_def)
  have idx: "decimal_numeral (make_row e a n dist rep ok ! 9) rep" for rep ok
    using to_string_numeral [of "int rep"] by (simp add: make_row_def)
  have once: "\<forall>i j ok ok'. make_row e a n dist i ok ! 9 = make_row e a n dist j ok' ! 9 \<longrightarrow> i = j"
  proof (intro allI impI)
    fix i j ok ok'
    assume eq: "make_row e a n dist i ok ! 9 = make_row e a n dist j ok' ! 9"
    from idx [of i ok] eq have "decimal_numeral (make_row e a n dist j ok' ! 9) i" by simp
    with idx [of j ok'] show "i = j" by (rule decimal_numeral_inj [symmetric])
  qed
  have warm: "\<forall>t. cout (warmup_loop srt a 0 t) = cout t \<and> files (warmup_loop srt a 0 t) = files t"
    by (simp add: warmup_loop_fields)
  from idx have idx': "\<forall>rep ok. decimal_numeral (make_row e a n dist rep ok ! 9) rep" by blast
  show ?thesis
    by (rule conjI, rule pos [THEN conjunct1], rule conjI, rule pos [THEN conjunct2],
        rule conjI, rule run, rule conjI, rule line, rule conjI, rule idx', rule conjI,
        rule once, rule warm)
qed

theorem runner_emits_reps_witness:
  "parse_args example_argv = Parsed example_args
   \<and> read_bin_int32_le example_state (dataset example_args) = Inr [5, - 1]
   \<and> can_append (out example_args) example_state
   \<and> (\<exists>s'. main std_sort example_env example_argv example_state = (s', 0)
        \<and> cout s' =
            ''2024-05-01T12:00:00,sort,cpp,c++20,builtin,d.bin,unknown,2,1,0,0.188,true\<newline>'' @
            ''2024-05-01T12:00:00,sort,cpp,c++20,builtin,d.bin,unknown,2,1,1,0.188,true\<newline>''
        \<and> files s' ''o.csv'' =
            Some (header_line @
              ''2024-05-01T12:00:00,sort,cpp,c++20,builtin,d.bin,unknown,2,1,0,0.188,true\<newline>'' @
              ''2024-05-01T12:00:00,sort,cpp,c++20,builtin,d.bin,unknown,2,1,1,0.188,true\<newline>''))"
proof -
  have c: "cout example_state = []" "files example_state ''o.csv'' = None"
    by (simp_all add: example_state_def initial_state_def)
  note t = runner_emits_reps [OF example_parse example_load(1) example_can_append(1),
      where srt = std_sort and e = example_env]
  from t [THEN conjunct2, THEN conjunct2, THEN conjunct1]
  obtain s' where m: "main std_sort example_env example_argv example_state = (s', 0)"
    and co: "cout s' = cout example_state
               @ concat (map (row_line std_sort example_env example_args
                                (sint (word_of_nat (length [5, - 1 :: int32]) :: 32 word))
                                (infer_distribution (dataset example_args)) [5, - 1])
                           [0..<nat (reps example_args)])"
    and fi: "files s' (out example_args) =
              Some ((case files example_state (out example_args) of
                       None \<Rightarrow> header_line | Some c \<Rightarrow> c)
                    @ concat (map (row_line std_sort example_env example_args
                                (sint (word_of_nat (length [5, - 1 :: int32]) :: 32 word))
                                (infer_distribution (dataset example_args)) [5, - 1])
                           [0..<nat (reps example_args)]))"
    by blast
  have l: "concat (map (row_line std_sort example_env example_args
                                (sint (word_of_nat (length [5, - 1 :: int32]) :: 32 word))
                                (infer_distribution (dataset example_args)) [5, - 1])
                           [0..<nat (reps example_args)])
           = ''2024-05-01T12:00:00,sort,cpp,c++20,builtin,d.bin,unknown,2,1,0,0.188,true\<newline>'' @
             ''2024-05-01T12:00:00,sort,cpp,c++20,builtin,d.bin,unknown,2,1,1,0.188,true\<newline>''"
    using example_lines(3) example_line_1
    by (simp add: example_reps example_dist example_fields)
  have "cout s' =
            ''2024-05-01T12:00:00,sort,cpp,c++20,builtin,d.bin,unknown,2,1,0,0.188,true\<newline>'' @
            ''2024-05-01T12:00:00,sort,cpp,c++20,builtin,d.bin,unknown,2,1,1,0.188,true\<newline>''"
    unfolding co l c by simp
  moreover have "files s' ''o.csv'' =
            Some (header_line @
              ''2024-05-01T12:00:00,sort,cpp,c++20,builtin,d.bin,unknown,2,1,0,0.188,true\<newline>'' @
              ''2024-05-01T12:00:00,sort,cpp,c++20,builtin,d.bin,unknown,2,1,1,0.188,true\<newline>'')"
    using fi unfolding l by (simp add: example_fields c)
  ultimately have "\<exists>s'. main std_sort example_env example_argv example_state = (s', 0)
        \<and> cout s' =
            ''2024-05-01T12:00:00,sort,cpp,c++20,builtin,d.bin,unknown,2,1,0,0.188,true\<newline>'' @
            ''2024-05-01T12:00:00,sort,cpp,c++20,builtin,d.bin,unknown,2,1,1,0.188,true\<newline>''
        \<and> files s' ''o.csv'' =
            Some (header_line @
              ''2024-05-01T12:00:00,sort,cpp,c++20,builtin,d.bin,unknown,2,1,0,0.188,true\<newline>'' @
              ''2024-05-01T12:00:00,sort,cpp,c++20,builtin,d.bin,unknown,2,1,1,0.188,true\<newline>'')"
    using m by (intro exI [of _ s'] conjI)
  with example_parse example_load(1) example_can_append(1) show ?thesis by (intro conjI)
qed

subsection \<open>Validation\<close>



subsection \<open>The dataset in memory\<close>

text \<open>
  Claim C7.  For arguments that parse and a dataset that loads, the vector \<open>values\<close> holds
  at the end of the run what the load returned, whether or not the run ended with an
  error, and every call of the sort during the run received that same sequence: each
  repetition copies \<open>values\<close> into \<open>tmp\<close> and sorts \<open>tmp\<close>.  A run that completes makes
  one such call per warmup and per measured repetition.  A single warmup or measured
  repetition, started in any state, leaves \<open>values\<close> as it was and hands the sort a copy
  of it.
\<close>

theorem dataset_never_mutated:
  assumes "parse_args argv = Parsed a"
    and "read_bin_int32_le s (dataset a) = Inr vs"
  shows "values_vec (fst (main srt e argv s)) = vs
     \<and> (\<exists>k. sort_calls (fst (main srt e argv s)) = sort_calls s @ replicate k vs)
     \<and> (can_append (out a) s \<longrightarrow>
          sort_calls (fst (main srt e argv s)) =
            sort_calls s @ replicate (nat (warmup a) + nat (reps a)) vs)
     \<and> values_vec (warmup_iter srt t) = values_vec t
     \<and> sort_calls (warmup_iter srt t) = sort_calls t @ [values_vec t]
     \<and> values_vec (fst (measured_iter srt e a n dist rep t)) = values_vec t
     \<and> sort_calls (fst (measured_iter srt e a n dist rep t)) = sort_calls t @ [values_vec t]"
proof -
  have run: "values_vec (fst (main srt e argv s)) = vs
     \<and> (\<exists>k. sort_calls (fst (main srt e argv s)) = sort_calls s @ replicate k vs)
     \<and> (can_append (out a) s \<longrightarrow>
          sort_calls (fst (main srt e argv s)) =
            sort_calls s @ replicate (nat (warmup a) + nat (reps a)) vs)"
  proof (cases "can_append (out a) s")
    case True
    from main_run_ok [OF assms True, of srt e]
    obtain s' where "main srt e argv s = (s', 0)" "values_vec s' = vs"
      "sort_calls s' = sort_calls s @ replicate (nat (warmup a) + nat (reps a)) vs"
      by blast
    with True show ?thesis by auto
  next
    case False
    from main_run_fail [OF assms False, of srt e]
    obtain s' where "main srt e argv s = (s', 1)" "values_vec s' = vs"
      and sc: "sort_calls s' = sort_calls s @ replicate (nat (warmup a) + 1) vs"
      by blast
    moreover from sc have "\<exists>k. sort_calls s' = sort_calls s @ replicate k vs" by (rule exI)
    ultimately show ?thesis using False by simp
  qed
  with measured_iter_vectors [of srt e a n dist rep t] show ?thesis by simp
qed

theorem dataset_never_mutated_witness:
  "parse_args example_argv = Parsed example_args
   \<and> read_bin_int32_le example_state (dataset example_args) = Inr [5, - 1]
   \<and> can_append (out example_args) example_state
   \<and> values_vec (fst (main std_sort example_env example_argv example_state)) = [5, - 1]
   \<and> sort_calls (fst (main std_sort example_env example_argv example_state))
       = [[5, - 1], [5, - 1], [5, - 1]]"
proof -
  note t = dataset_never_mutated [OF example_parse example_load(1),
      where srt = std_sort and e = example_env]
  have c: "sort_calls example_state = []"
    by (simp add: example_state_def initial_state_def)
  have r: "replicate (nat (warmup example_args) + nat (reps example_args)) [5, - 1 :: int32]
             = [[5, - 1], [5, - 1], [5, - 1]]"
    by (simp add: example_fields numeral_3_eq_3)
  from t [THEN conjunct1]
  have v: "values_vec (fst (main std_sort example_env example_argv example_state)) = [5, - 1]" .
  from t [THEN conjunct2, THEN conjunct2, THEN conjunct1, THEN mp, OF example_can_append(1)]
  have "sort_calls (fst (main std_sort example_env example_argv example_state))
       = [[5, - 1], [5, - 1], [5, - 1]]"
    unfolding r c by simp
  with v example_parse example_load(1) example_can_append(1) show ?thesis by (intro conjI)
qed

subsection \<open>The console\<close>

text \<open>
  Claim C9.  A measured repetition, started in any state, prints its line on the console
  before it calls \<open>append_row\<close>.  When the log can be appended to, the call returns and
  the log ends with the very same line (after the header, if the file was absent).
  When it cannot, the call throws and no file changes, and the line is on the console
  all the same.  For a whole run: when the log can be appended to, the console and the
  log receive the same lines; when it cannot, the run ends with status 1 after the
  line of repetition 0 was printed.
\<close>

theorem console_echo:
  "cout (fst (measured_iter srt e a n dist rep t)) =
     cout t @ row_line srt e a n dist (values_vec t) rep
   \<and> (can_append (out a) t \<longrightarrow>
        snd (measured_iter srt e a n dist rep t) = None
        \<and> files (fst (measured_iter srt e a n dist rep t)) (out a) =
            Some ((case files t (out a) of None \<Rightarrow> header_line | Some c \<Rightarrow> c)
                  @ row_line srt e a n dist (values_vec t) rep))
   \<and> (\<not> can_append (out a) t \<longrightarrow>
        snd (measured_iter srt e a n dist rep t) \<noteq> None
        \<and> files (fst (measured_iter srt e a n dist rep t)) = files t)
   \<and> (parse_args argv = Parsed a \<and> read_bin_int32_le s (dataset a) = Inr vs
        \<and> can_append (out a) s \<longrightarrow>
        (\<exists>lines. cout (fst (main srt e argv s)) = cout s @ lines
           \<and> files (fst (main srt e argv s)) (out a) =
               Some ((case files s (out a) of None \<Rightarrow> header_line | Some c \<Rightarrow> c) @ lines)
           \<and> lines = concat (map (row_line srt e a (sint (word_of_nat (length vs) :: 32 word))
                                     (infer_distribution (dataset a)) vs) [0..<nat (reps a)])))
   \<and> (parse_args argv = Parsed a \<and> read_bin_int32_le s (dataset a) = Inr vs
        \<and> \<not> can_append (out a) s \<longrightarrow>
        snd (main srt e argv s) = 1
        \<and> cout (fst (main srt e argv s)) =
            cout s @ row_line srt e a (sint (word_of_nat (length vs) :: 32 word))
                       (infer_distribution (dataset a)) vs 0
        \<and> files (fst (main srt e argv s)) = files s)"
proof -
  have it_ok: "can_append (out a) t \<longrightarrow>
        snd (measured_iter srt e a n dist rep t) = None
        \<and> files (fst (measured_iter srt e a n dist rep t)) (out a) =
            Some ((case files t (out a) of None \<Rightarrow> header_line | Some c \<Rightarrow> c)
                  @ row_line srt e a n dist (values_vec t) rep)"
  proof
    assume w: "can_append (out a) t"
    from measured_iter_ok [OF w, of srt e n dist rep]
    show "snd (measured_iter srt e a n dist rep t) = None
        \<and> files (fst (measured_iter srt e a n dist rep t)) (out a) =
            Some ((case files t (out a) of None \<Rightarrow> header_line | Some c \<Rightarrow> c)
                  @ row_line srt e a n dist (values_vec t) rep)"
      by auto
  qed
  have it_fail: "\<not> can_append (out a) t \<longrightarrow>
        snd (measured_iter srt e a n dist rep t) \<noteq> None
        \<and> files (fst (measured_iter srt e a n dist rep t)) = files t"
  proof
    assume w: "\<not> can_append (out a) t"
    from measured_iter_fail [OF w, of srt e n dist rep]
    obtain s' x where "measured_iter srt e a n dist rep t = (s', Some x)" "files s' = files t"
      by blast
    then show "snd (measured_iter srt e a n dist rep t) \<noteq> None
        \<and> files (fst (measured_iter srt e a n dist rep t)) = files t"
      by simp
  qed
  have run_ok: "parse_args argv = Parsed a \<and> read_bin_int32_le s (dataset a) = Inr vs
        \<and> can_append (out a) s \<longrightarrow>
        (\<exists>lines. cout (fst (main srt e argv s)) = cout s @ lines
           \<and> files (fst (main srt e argv s)) (out a) =
               Some ((case files s (out a) of None \<Rightarrow> header_line | Some c \<Rightarrow> c) @ lines)
           \<and> lines = concat (map (row_line srt e a (sint (word_of_nat (length vs) :: 32 word))
                                     (infer_distribution (dataset a)) vs) [0..<nat (reps a)]))"
  proof
    assume h: "parse_args argv = Parsed a \<and> read_bin_int32_le s (dataset a) = Inr vs
        \<and> can_append (out a) s"
    then have p: "parse_args argv = Parsed a" and l: "read_bin_int32_le s (dataset a) = Inr vs"
      and w: "can_append (out a) s" by simp_all
    from main_run_ok [OF p l w, of srt e]
    show "\<exists>lines. cout (fst (main srt e argv s)) = cout s @ lines
           \<and> files (fst (main srt e argv s)) (out a) =
               Some ((case files s (out a) of None \<Rightarrow> header_line | Some c \<Rightarrow> c) @ lines)
           \<and> lines = concat (map (row_line srt e a (sint (word_of_nat (length vs) :: 32 word))
                                     (infer_distribution (dataset a)) vs) [0..<nat (reps a)])"
      by auto
  qed
  have run_fail: "parse_args argv = Parsed a \<and> read_bin_int32_le s (dataset a) = Inr vs
        \<and> \<not> can_append (out a) s \<longrightarrow>
        snd (main srt e argv s) = 1
        \<and> cout (fst (main srt e argv s)) =
            cout s @ row_line srt e a (sint (word_of_nat (length vs) :: 32 word))
                       (infer_distribution (dataset a)) vs 0
        \<and> files (fst (main srt e argv s)) = files s"
  proof
    assume h: "parse_args argv = Parsed a \<and> read_bin_int32_le s (dataset a) = Inr vs
        \<and> \<not> can_append (out a) s"
    then have p: "parse_args argv = Parsed a" and l: "read_bin_int32_le s (dataset a) = Inr vs"
      and w: "\<not> can_append (out a) s" by simp_all
    from main_run_fail [OF p l w, of srt e]
    obtain s' where "main srt e argv s = (s', 1)"
      "cout s' = cout s @ row_line srt e a (sint (word_of_nat (length vs) :: 32 word))
                             (infer_distribution (dataset a)) vs 0"
      "files s' = files s"
      by blast
    then show "snd (main srt e argv s) = 1
        \<and> cout (fst (main srt e argv s)) =
            cout s @ row_line srt e a (sint (word_of_nat (length vs) :: 32 word))
                       (infer_distribution (dataset a)) vs 0
        \<and> files (fst (main srt e argv s)) = files s"
      by simp
  qed
  show ?thesis
    by (rule conjI, rule measured_iter_cout, rule conjI, rule it_ok, rule conjI, rule it_fail,
        rule conjI, rule run_ok, rule run_fail)
qed

theorem console_echo_witness:
  "parse_args example_argv = Parsed example_args
   \<and> read_bin_int32_le example_state_ro (dataset example_args) = Inr [5, - 1]
   \<and> \<not> can_append (out example_args) example_state_ro
   \<and> snd (main std_sort example_env example_argv example_state_ro) = 1
   \<and> cout (fst (main std_sort example_env example_argv example_state_ro)) =
       ''2024-05-01T12:00:00,sort,cpp,c++20,builtin,d.bin,unknown,2,1,0,0.188,true\<newline>''
   \<and> files (fst (main std_sort example_env example_argv example_state_ro)) ''o.csv'' = None"
proof -
  have h: "parse_args example_argv = Parsed example_args
        \<and> read_bin_int32_le example_state_ro (dataset example_args) = Inr [5, - 1]
        \<and> \<not> can_append (out example_args) example_state_ro"
    using example_parse example_load(2) example_can_append(2) by (intro conjI)
  have c: "cout example_state_ro = []" "files example_state_ro ''o.csv'' = None"
    by (simp_all add: example_state_ro_def initial_state_def)
  from console_echo [where argv = example_argv and a = example_args and s = example_state_ro
      and vs = "[5, - 1]" and srt = std_sort and e = example_env,
      THEN conjunct2, THEN conjunct2, THEN conjunct2, THEN conjunct2, THEN mp, OF h]
  have "snd (main std_sort example_env example_argv example_state_ro) = 1
   \<and> cout (fst (main std_sort example_env example_argv example_state_ro)) =
       ''2024-05-01T12:00:00,sort,cpp,c++20,builtin,d.bin,unknown,2,1,0,0.188,true\<newline>''
   \<and> files (fst (main std_sort example_env example_argv example_state_ro)) ''o.csv'' = None"
    using example_lines(3)
    by (simp add: c example_fields example_dist)
  with h show ?thesis by simp
qed

end
